theory Spec2Isabelle
  imports Complex_Main
begin

section \<open>JavaScript numbers\<close>

text \<open>
  The scanner computes with JavaScript numbers, which are IEEE 754 binary64 values: every
  arithmetic operation returns the exact result rounded to the nearest value with a 53 bit
  significand, ties going to the even significand. A finite number is modelled by the
  rational it denotes and an operation by the exact operation followed by \<open>round64\<close>.
  The exponent is not bounded here, so \<open>round64\<close> is the binary64 rounding for results
  of magnitude between \<open>2 ^ - 1022\<close> and \<open>2 ^ 1024\<close> and for zero; the scores (below
  2, and at most 100 when scaled for the rounding to two decimals) and the time
  differences of this program stay far inside.
\<close>

text \<open>
  The number of binary digits of a positive integer, and with it the exponent \<open>e\<close> of
  a positive rational \<open>x\<close>: \<open>2 ^ e \<le> x < 2 ^ (e + 1)\<close>.
\<close>

function bitlen :: "int \<Rightarrow> nat" where
  "bitlen k = (if k \<le> 0 then 0 else Suc (bitlen (k div 2)))"
  by pat_completeness auto
termination
  by (relation "measure nat") auto

declare bitlen.simps [simp del]

definition ilog2 :: "rat \<Rightarrow> int" where
  "ilog2 x = (if 1 \<le> x then int (bitlen \<lfloor>x\<rfloor>) - 1
              else - int (bitlen (\<lceil>1 / x\<rceil> - 1)))"

definition round_half_even :: "rat \<Rightarrow> int" where
  "round_half_even q =
     (let f = \<lfloor>q\<rfloor>; r = q - of_int f
      in if r < 1 / 2 then f
         else if 1 / 2 < r then f + 1
         else if even f then f else f + 1)"

definition round64 :: "rat \<Rightarrow> rat" where
  "round64 x =
     (if x = 0 then 0
      else let u = power_int 2 (ilog2 \<bar>x\<bar> - 52)
           in sgn x * (of_int (round_half_even (\<bar>x\<bar> / u)) * u))"

definition fadd :: "rat \<Rightarrow> rat \<Rightarrow> rat" where
  "fadd x y = round64 (x + y)"

definition fsub :: "rat \<Rightarrow> rat \<Rightarrow> rat" where
  "fsub x y = round64 (x - y)"

definition fmul :: "rat \<Rightarrow> rat \<Rightarrow> rat" where
  "fmul x y = round64 (x * y)"

definition fdiv :: "rat \<Rightarrow> rat \<Rightarrow> rat" where
  "fdiv x y = round64 (x / y)"

text \<open>\<open>Math.round\<close> returns the nearest integer, the larger one at a tie.\<close>

definition math_round :: "rat \<Rightarrow> int" where
  "math_round x = \<lfloor>x + 1 / 2\<rfloor>"

text \<open>
  The values of type \<open>number | null\<close> that the age lookups return: \<open>null\<close>, \<open>NaN\<close>
  (the age computed from an invalid \<open>Date\<close>) or a whole number of days.
\<close>

datatype jsnum = Null | NaN | Num int

text \<open>\<open>x !== null\<close>\<close>

fun not_null :: "jsnum \<Rightarrow> bool" where
  "not_null Null = False"
| "not_null NaN = True"
| "not_null (Num d) = True"

text \<open>\<open>x < n\<close> for a number \<open>n\<close>: \<open>null\<close> converts to \<open>0\<close>, and \<open>NaN\<close> compares false.\<close>

fun js_lt :: "jsnum \<Rightarrow> int \<Rightarrow> bool" where
  "js_lt Null n = (0 < n)"
| "js_lt NaN n = False"
| "js_lt (Num d) n = (d < n)"

text \<open>The decimal digits a template literal prints for a number.\<close>

fun show_nat :: "nat \<Rightarrow> string" where
  "show_nat n =
     (if n < 10 then [''0123456789'' ! n]
      else show_nat (n div 10) @ [''0123456789'' ! (n mod 10)])"

declare show_nat.simps [simp del]

definition show_int :: "int \<Rightarrow> string" where
  "show_int i = (if i < 0 then CHR ''-'' # show_nat (nat (- i)) else show_nat (nat i))"

fun show_jsnum :: "jsnum \<Rightarrow> string" where
  "show_jsnum Null = ''null''"
| "show_jsnum NaN = ''NaN''"
| "show_jsnum (Num d) = show_int d"

text \<open>\<open>Array.prototype.join\<close> on an array of strings.\<close>

fun join :: "string \<Rightarrow> string list \<Rightarrow> string" where
  "join sep [] = []"
| "join sep [x] = x"
| "join sep (x # y # ys) = x @ sep @ join sep (y # ys)"

section \<open>The scoring step of \<open>scan\<close>\<close>

text \<open>
  The values that the scoring part of \<open>VibeSniffScanner.scan\<close> reads; the part of
  \<open>scan\<close> before it computes them from the rendered page and from the three lookups.
\<close>

record scan_inputs =
  domainAge :: jsnum
  tlsAge :: jsnum
  hasPasswordForm :: bool
  hasActionMismatch :: bool
  suspiciousFormPatterns :: "string list"
  externalHostsCount :: nat
  foundSuspiciousKeywords :: "string list"
  suspiciousLinkPatterns :: "string list"
  hasPopups :: bool
  hasRedirects :: bool
  suspiciousIframes :: "string list"

text \<open>An entry of \<open>riskFactors\<close>; \<open>fvalue\<close> is the source's key \<open>value\<close>.\<close>

record risk_factor =
  factor :: string
  weight :: rat
  fvalue :: jsnum

text \<open>The three local variables that the rules update.\<close>

record locals =
  l_score :: rat
  l_reasons :: "string list"
  l_riskFactors :: "risk_factor list"

datatype risk_level = LOW | MEDIUM | HIGH

text \<open>The four fields of the returned object that the scoring step computes.\<close>

record scan_result =
  score :: rat
  riskLevel :: risk_level
  reasons :: "string list"
  riskFactors :: "risk_factor list"

text \<open>
  The body of every rule: \<open>score += w; reasons.push(reason);
  riskFactors.push({ factor: name, weight: w, value: v })\<close>.
\<close>

definition fire :: "rat \<Rightarrow> string \<Rightarrow> string \<Rightarrow> jsnum \<Rightarrow> locals \<Rightarrow> locals" where
  "fire w reason name v l =
     \<lparr>l_score = fadd (l_score l) w,
      l_reasons = l_reasons l @ [reason],
      l_riskFactors = l_riskFactors l @ [\<lparr>factor = name, weight = w, fvalue = v\<rparr>]\<rparr>"

definition len :: "'a list \<Rightarrow> jsnum" where
  "len xs = Num (int (length xs))"

definition domain_age_rule :: "scan_inputs \<Rightarrow> locals \<Rightarrow> locals" where
  "domain_age_rule inp l =
     (if not_null (domainAge inp) \<and> js_lt (domainAge inp) 7 then
        fire (round64 (35 / 100))
          (''Domain age is '' @ show_jsnum (domainAge inp) @ '' days (suspicious if < 7)'')
          ''New Domain'' (domainAge inp) l
      else if not_null (domainAge inp) \<and> js_lt (domainAge inp) 30 then
        fire (round64 (15 / 100))
          (''Domain age is '' @ show_jsnum (domainAge inp) @ '' days (somewhat new)'')
          ''Recent Domain'' (domainAge inp) l
      else l)"

definition tls_rule :: "scan_inputs \<Rightarrow> locals \<Rightarrow> locals" where
  "tls_rule inp l =
     (if not_null (tlsAge inp) \<and> js_lt (tlsAge inp) 7 then
        fire (round64 (20 / 100))
          (''TLS certificate age is '' @ show_jsnum (tlsAge inp) @ '' days (suspicious if < 7)'')
          ''New Certificate'' (tlsAge inp) l
      else l)"

definition password_rule :: "scan_inputs \<Rightarrow> locals \<Rightarrow> locals" where
  "password_rule inp l =
     (if hasPasswordForm inp then
        fire (round64 (20 / 100)) ''Contains password form'' ''Password Form'' (Num 1) l
      else l)"

definition mismatch_rule :: "scan_inputs \<Rightarrow> locals \<Rightarrow> locals" where
  "mismatch_rule inp l =
     (if hasActionMismatch inp then
        fire (round64 (25 / 100)) ''Password form action points to different domain''
          ''Action Mismatch'' (Num 1) l
      else l)"

definition form_patterns_rule :: "scan_inputs \<Rightarrow> locals \<Rightarrow> locals" where
  "form_patterns_rule inp l =
     (if 0 < length (suspiciousFormPatterns inp) then
        fire (round64 (15 / 100))
          (''Suspicious form patterns: '' @ join '', '' (suspiciousFormPatterns inp))
          ''Suspicious Forms'' (len (suspiciousFormPatterns inp)) l
      else l)"

definition external_hosts_rule :: "scan_inputs \<Rightarrow> locals \<Rightarrow> locals" where
  "external_hosts_rule inp l =
     (if 8 < externalHostsCount inp then
        fire (round64 (10 / 100))
          (''High number of external hosts: '' @ show_nat (externalHostsCount inp)
            @ '' (suspicious if > 8)'')
          ''High External Hosts'' (Num (int (externalHostsCount inp))) l
      else l)"

definition keywords_rule :: "scan_inputs \<Rightarrow> locals \<Rightarrow> locals" where
  "keywords_rule inp l =
     (if 3 < length (foundSuspiciousKeywords inp) then
        fire (round64 (15 / 100))
          (''High number of suspicious keywords: ''
            @ show_nat (length (foundSuspiciousKeywords inp)))
          ''Suspicious Keywords'' (len (foundSuspiciousKeywords inp)) l
      else l)"

definition links_rule :: "scan_inputs \<Rightarrow> locals \<Rightarrow> locals" where
  "links_rule inp l =
     (if 0 < length (suspiciousLinkPatterns inp) then
        fire (round64 (10 / 100))
          (''Suspicious link patterns detected: ''
            @ show_nat (length (suspiciousLinkPatterns inp)))
          ''Suspicious Links'' (len (suspiciousLinkPatterns inp)) l
      else l)"

definition popups_rule :: "scan_inputs \<Rightarrow> locals \<Rightarrow> locals" where
  "popups_rule inp l =
     (if hasPopups inp \<or> hasRedirects inp then
        fire (round64 (10 / 100)) ''Contains popup or redirect scripts''
          ''Popups/Redirects'' (Num 1) l
      else l)"

definition iframes_rule :: "scan_inputs \<Rightarrow> locals \<Rightarrow> locals" where
  "iframes_rule inp l =
     (if 0 < length (suspiciousIframes inp) then
        fire (round64 (10 / 100))
          (''Suspicious iframes detected: '' @ show_nat (length (suspiciousIframes inp)))
          ''Suspicious Iframes'' (len (suspiciousIframes inp)) l
      else l)"

text \<open>The locals after the last rule, starting from \<open>score = 0\<close> and two empty arrays.\<close>

definition run_rules :: "scan_inputs \<Rightarrow> locals" where
  "run_rules inp =
     iframes_rule inp (popups_rule inp (links_rule inp (keywords_rule inp
       (external_hosts_rule inp (form_patterns_rule inp (mismatch_rule inp
         (password_rule inp (tls_rule inp (domain_age_rule inp
           \<lparr>l_score = 0, l_reasons = [], l_riskFactors = []\<rparr>)))))))))"

text \<open>\<open>if (score > 0.7) riskLevel = 'HIGH'; else if (score > 0.4) riskLevel = 'MEDIUM'\<close>\<close>

definition classify :: "rat \<Rightarrow> risk_level" where
  "classify s =
     (if round64 (7 / 10) < s then HIGH
      else if round64 (4 / 10) < s then MEDIUM
      else LOW)"

definition fallback_reason :: string where
  "fallback_reason = ''No obvious suspicious patterns detected''"

text \<open>
  The cap, the risk level, the fallback reason and the returned object, in the order of
  the source: the level is taken from the capped score, and the score is rounded to two
  decimals only where the object is built.
\<close>

definition scan :: "scan_inputs \<Rightarrow> scan_result" where
  "scan inp =
     (let l = run_rules inp;
          capped = min (l_score l) 1;
          level = classify capped;
          rs = (if length (l_reasons l) = 0 then l_reasons l @ [fallback_reason]
                else l_reasons l)
      in \<lparr>score = fdiv (of_int (math_round (fmul capped 100))) 100,
          riskLevel = level,
          reasons = rs,
          riskFactors = l_riskFactors l\<rparr>)"

section \<open>The inline scoring of the HTTP handler\<close>

text \<open>
  \<open>server.js\<close> replaces \<open>scanner.scan\<close> for the duration of a request, to save the
  screenshot under another path, by a function with its own copy of the scoring. That copy
  has five rules, keeps no \<open>riskFactors\<close> and returns no \<open>riskLevel\<close>.
\<close>

record server_locals =
  sl_score :: rat
  sl_reasons :: "string list"

record server_result =
  sr_score :: rat
  sr_reasons :: "string list"

definition server_fire :: "rat \<Rightarrow> string \<Rightarrow> server_locals \<Rightarrow> server_locals" where
  "server_fire w reason l =
     \<lparr>sl_score = fadd (sl_score l) w, sl_reasons = sl_reasons l @ [reason]\<rparr>"

definition server_domain_age_rule :: "scan_inputs \<Rightarrow> server_locals \<Rightarrow> server_locals" where
  "server_domain_age_rule inp l =
     (if not_null (domainAge inp) \<and> js_lt (domainAge inp) 7 then
        server_fire (round64 (35 / 100))
          (''Domain age is '' @ show_jsnum (domainAge inp) @ '' days (suspicious if < 7)'') l
      else l)"

definition server_tls_rule :: "scan_inputs \<Rightarrow> server_locals \<Rightarrow> server_locals" where
  "server_tls_rule inp l =
     (if not_null (tlsAge inp) \<and> js_lt (tlsAge inp) 7 then
        server_fire (round64 (20 / 100))
          (''TLS certificate age is '' @ show_jsnum (tlsAge inp) @ '' days (suspicious if < 7)'') l
      else l)"

definition server_password_rule :: "scan_inputs \<Rightarrow> server_locals \<Rightarrow> server_locals" where
  "server_password_rule inp l =
     (if hasPasswordForm inp then server_fire (round64 (20 / 100)) ''Contains password form'' l
      else l)"

definition server_mismatch_rule :: "scan_inputs \<Rightarrow> server_locals \<Rightarrow> server_locals" where
  "server_mismatch_rule inp l =
     (if hasActionMismatch inp then
        server_fire (round64 (25 / 100)) ''Password form action points to different domain'' l
      else l)"

definition server_external_hosts_rule :: "scan_inputs \<Rightarrow> server_locals \<Rightarrow> server_locals" where
  "server_external_hosts_rule inp l =
     (if 8 < externalHostsCount inp then
        server_fire (round64 (10 / 100))
          (''High number of external hosts: '' @ show_nat (externalHostsCount inp)
            @ '' (suspicious if > 8)'') l
      else l)"

definition server_scan :: "scan_inputs \<Rightarrow> server_result" where
  "server_scan inp =
     (let l = server_external_hosts_rule inp (server_mismatch_rule inp
                (server_password_rule inp (server_tls_rule inp (server_domain_age_rule inp
                  \<lparr>sl_score = 0, sl_reasons = []\<rparr>))));
          capped = min (sl_score l) 1;
          rs = (if length (sl_reasons l) = 0 then sl_reasons l @ [fallback_reason]
                else sl_reasons l)
      in \<lparr>sr_score = fdiv (of_int (math_round (fmul capped 100))) 100, sr_reasons = rs\<rparr>)"

section \<open>The rule table of the specification\<close>

text \<open>
  The ordered rule set as the specification lists it: a condition, a weight in
  hundredths, and for every rule the reason and the risk factor it contributes. The second
  domain-age rule is the \<open>else\<close> branch of the first, so it fires only when the first
  does not.
\<close>

datatype rule =
  NewDomain | RecentDomain | NewCertificate | PasswordForm | ActionMismatch
  | SuspiciousForms | HighExternalHosts | SuspiciousKeywords | SuspiciousLinks
  | PopupsRedirects | SuspiciousIframes

definition rule_order :: "rule list" where
  "rule_order =
     [NewDomain, RecentDomain, NewCertificate, PasswordForm, ActionMismatch, SuspiciousForms,
      HighExternalHosts, SuspiciousKeywords, SuspiciousLinks, PopupsRedirects,
      SuspiciousIframes]"

text \<open>The condition written at each rule.\<close>

fun condition :: "scan_inputs \<Rightarrow> rule \<Rightarrow> bool" where
  "condition inp NewDomain = (not_null (domainAge inp) \<and> js_lt (domainAge inp) 7)"
| "condition inp RecentDomain = (not_null (domainAge inp) \<and> js_lt (domainAge inp) 30)"
| "condition inp NewCertificate = (not_null (tlsAge inp) \<and> js_lt (tlsAge inp) 7)"
| "condition inp PasswordForm = hasPasswordForm inp"
| "condition inp ActionMismatch = hasActionMismatch inp"
| "condition inp SuspiciousForms = (0 < length (suspiciousFormPatterns inp))"
| "condition inp HighExternalHosts = (8 < externalHostsCount inp)"
| "condition inp SuspiciousKeywords = (3 < length (foundSuspiciousKeywords inp))"
| "condition inp SuspiciousLinks = (0 < length (suspiciousLinkPatterns inp))"
| "condition inp PopupsRedirects = (hasPopups inp \<or> hasRedirects inp)"
| "condition inp SuspiciousIframes = (0 < length (suspiciousIframes inp))"

text \<open>A rule fires when its condition holds and no earlier branch of its group was taken.\<close>

definition fires :: "scan_inputs \<Rightarrow> rule \<Rightarrow> bool" where
  "fires inp r =
     (if r = RecentDomain then condition inp RecentDomain \<and> \<not> condition inp NewDomain
      else condition inp r)"

definition fired :: "scan_inputs \<Rightarrow> rule list" where
  "fired inp = filter (fires inp) rule_order"

fun hundredths :: "rule \<Rightarrow> nat" where
  "hundredths NewDomain = 35"
| "hundredths RecentDomain = 15"
| "hundredths NewCertificate = 20"
| "hundredths PasswordForm = 20"
| "hundredths ActionMismatch = 25"
| "hundredths SuspiciousForms = 15"
| "hundredths HighExternalHosts = 10"
| "hundredths SuspiciousKeywords = 15"
| "hundredths SuspiciousLinks = 10"
| "hundredths PopupsRedirects = 10"
| "hundredths SuspiciousIframes = 10"

text \<open>The weight of a rule as the decimal fraction the specification writes.\<close>

definition rule_weight :: "rule \<Rightarrow> rat" where
  "rule_weight r = of_nat (hundredths r) / 100"

text \<open>The sum of the weights of the rules that fired, in exact arithmetic.\<close>

definition fired_weight_sum :: "scan_inputs \<Rightarrow> rat" where
  "fired_weight_sum inp = sum_list (map rule_weight (fired inp))"

fun rule_reason :: "scan_inputs \<Rightarrow> rule \<Rightarrow> string" where
  "rule_reason inp NewDomain =
     ''Domain age is '' @ show_jsnum (domainAge inp) @ '' days (suspicious if < 7)''"
| "rule_reason inp RecentDomain =
     ''Domain age is '' @ show_jsnum (domainAge inp) @ '' days (somewhat new)''"
| "rule_reason inp NewCertificate =
     ''TLS certificate age is '' @ show_jsnum (tlsAge inp) @ '' days (suspicious if < 7)''"
| "rule_reason inp PasswordForm = ''Contains password form''"
| "rule_reason inp ActionMismatch = ''Password form action points to different domain''"
| "rule_reason inp SuspiciousForms =
     ''Suspicious form patterns: '' @ join '', '' (suspiciousFormPatterns inp)"
| "rule_reason inp HighExternalHosts =
     ''High number of external hosts: '' @ show_nat (externalHostsCount inp)
       @ '' (suspicious if > 8)''"
| "rule_reason inp SuspiciousKeywords =
     ''High number of suspicious keywords: ''
       @ show_nat (length (foundSuspiciousKeywords inp))"
| "rule_reason inp SuspiciousLinks =
     ''Suspicious link patterns detected: ''
       @ show_nat (length (suspiciousLinkPatterns inp))"
| "rule_reason inp PopupsRedirects = ''Contains popup or redirect scripts''"
| "rule_reason inp SuspiciousIframes =
     ''Suspicious iframes detected: '' @ show_nat (length (suspiciousIframes inp))"

fun rule_name :: "rule \<Rightarrow> string" where
  "rule_name NewDomain = ''New Domain''"
| "rule_name RecentDomain = ''Recent Domain''"
| "rule_name NewCertificate = ''New Certificate''"
| "rule_name PasswordForm = ''Password Form''"
| "rule_name ActionMismatch = ''Action Mismatch''"
| "rule_name SuspiciousForms = ''Suspicious Forms''"
| "rule_name HighExternalHosts = ''High External Hosts''"
| "rule_name SuspiciousKeywords = ''Suspicious Keywords''"
| "rule_name SuspiciousLinks = ''Suspicious Links''"
| "rule_name PopupsRedirects = ''Popups/Redirects''"
| "rule_name SuspiciousIframes = ''Suspicious Iframes''"

fun rule_value :: "scan_inputs \<Rightarrow> rule \<Rightarrow> jsnum" where
  "rule_value inp NewDomain = domainAge inp"
| "rule_value inp RecentDomain = domainAge inp"
| "rule_value inp NewCertificate = tlsAge inp"
| "rule_value inp PasswordForm = Num 1"
| "rule_value inp ActionMismatch = Num 1"
| "rule_value inp SuspiciousForms = len (suspiciousFormPatterns inp)"
| "rule_value inp HighExternalHosts = Num (int (externalHostsCount inp))"
| "rule_value inp SuspiciousKeywords = len (foundSuspiciousKeywords inp)"
| "rule_value inp SuspiciousLinks = len (suspiciousLinkPatterns inp)"
| "rule_value inp PopupsRedirects = Num 1"
| "rule_value inp SuspiciousIframes = len (suspiciousIframes inp)"

definition rule_factor :: "scan_inputs \<Rightarrow> rule \<Rightarrow> risk_factor" where
  "rule_factor inp r =
     \<lparr>factor = rule_name r, weight = round64 (rule_weight r), fvalue = rule_value inp r\<rparr>"

text \<open>One rule applied to the locals, as the table describes it.\<close>

definition apply_rule :: "scan_inputs \<Rightarrow> locals \<Rightarrow> rule \<Rightarrow> locals" where
  "apply_rule inp l r =
     (if fires inp r
      then fire (round64 (rule_weight r)) (rule_reason inp r) (rule_name r) (rule_value inp r) l
      else l)"

text \<open>
  The thresholds of the specification applied to a score: above 0.7 is HIGH, above 0.4 up
  to 0.7 is MEDIUM, up to 0.4 is LOW. The bounds are the numbers that the literals
  \<open>0.7\<close> and \<open>0.4\<close> denote.
\<close>

definition spec_level :: "rat \<Rightarrow> risk_level" where
  "spec_level s =
     (if round64 (7 / 10) < s then HIGH
      else if round64 (4 / 10) < s \<and> s \<le> round64 (7 / 10) then MEDIUM
      else LOW)"

text \<open>The running sum the code forms from the weights it recorded, with the cap.\<close>

definition capped_sum :: "risk_factor list \<Rightarrow> rat" where
  "capped_sum fs = min (foldl fadd 0 (map weight fs)) 1"

text \<open>
  The weights of the rules that fired, added from 0 in rule order as JavaScript numbers,
  with the cap: the capped score before any rounding to two decimals.
\<close>

definition fired_capped_sum :: "scan_inputs \<Rightarrow> rat" where
  "fired_capped_sum inp =
     min (foldl fadd 0 (map (\<lambda>r. round64 (rule_weight r)) (fired inp))) 1"

text \<open>Rounding to two decimals as the source does it: \<open>Math.round(s * 100) / 100\<close>.\<close>

definition round2 :: "rat \<Rightarrow> rat" where
  "round2 s = fdiv (of_int (math_round (fmul s 100))) 100"

text \<open>
  Two inputs that differ in one rule condition only, which is false in the first and true
  in the second.
\<close>

definition flips :: "scan_inputs \<Rightarrow> scan_inputs \<Rightarrow> rule \<Rightarrow> bool" where
  "flips inp inp' r \<longleftrightarrow>
     \<not> condition inp r \<and> condition inp' r
     \<and> list_all (\<lambda>q. q = r \<or> condition inp q = condition inp' q) rule_order"

text \<open>What a rule adds to the sum of hundredths.\<close>

definition contribution :: "scan_inputs \<Rightarrow> rule \<Rightarrow> nat" where
  "contribution inp r = (if fires inp r then hundredths r else 0)"

section \<open>The apex-domain heuristic\<close>

text \<open>
  \<open>String.prototype.split\<close> with a one-character separator; the empty string gives
  the array with one empty string.
\<close>

fun split :: "char \<Rightarrow> string \<Rightarrow> string list" where
  "split c [] = [[]]"
| "split c (x # xs) =
     (if x = c then [] # split c xs
      else (case split c xs of [] \<Rightarrow> [[x]] | p # ps \<Rightarrow> (x # p) # ps))"

text \<open>
  \<open>getETLDPlusOne\<close>. The URL parser of the platform is a parameter: \<open>hostname_of url\<close> is
  the \<open>hostname\<close> of \<open>new URL(url)\<close>, and \<open>None\<close> when the constructor throws.
  \<open>parts.slice(-2)\<close> keeps the last two elements.
\<close>

definition getETLDPlusOne :: "(string \<Rightarrow> string option) \<Rightarrow> string \<Rightarrow> string option" where
  "getETLDPlusOne hostname_of url =
     (case hostname_of url of
        None \<Rightarrow> None
      | Some hostname \<Rightarrow>
          (let parts = split (CHR ''.'') hostname
           in if 2 \<le> length parts then Some (join ''.'' (drop (length parts - 2) parts))
              else Some hostname))"

text \<open>The resolver in the words of the specification, over the labels of the hostname.\<close>

definition resolve_spec :: "string option \<Rightarrow> string option" where
  "resolve_spec parsed =
     (case parsed of
        None \<Rightarrow> None
      | Some hostname \<Rightarrow>
          (let labels = split (CHR ''.'') hostname; n = length labels
           in if 2 \<le> n then Some (labels ! (n - 2) @ ''.'' @ labels ! (n - 1))
              else Some hostname))"

section \<open>The three age lookups\<close>

text \<open>
  What a lookup returns to its caller: a value, or an exception that leaves the function.
\<close>

datatype 'a completion = Returned 'a | Raised string

text \<open>
  The age in days computed from the time value of \<open>new Date(...)\<close>, in milliseconds, and
  the time value of the clock: \<open>Math.ceil(Math.abs(now - created) / (1000 * 60 * 60 * 24))\<close>.
  An invalid date has the time value \<open>NaN\<close>, which every step passes on.
\<close>

definition age_in_days :: "int \<Rightarrow> int option \<Rightarrow> jsnum" where
  "age_in_days now created =
     (case created of
        None \<Rightarrow> NaN
      | Some t \<Rightarrow>
          (let diffTime = \<bar>fsub (of_int now) (of_int t)\<bar>
           in Num \<lceil>fdiv diffTime (1000 * 60 * 60 * 24)\<rceil>))"

text \<open>A property that holds a string or is missing; the empty string is falsy.\<close>

definition truthy :: "string option \<Rightarrow> bool" where
  "truthy v = (case v of None \<Rightarrow> False | Some s \<Rightarrow> s \<noteq> [])"

text \<open>\<open>a || b\<close>\<close>

definition js_or :: "string option \<Rightarrow> string option \<Rightarrow> string option" where
  "js_or a b = (if truthy a then a else b)"

text \<open>The three properties of the WHOIS record that \<open>getDomainAge\<close> reads.\<close>

record whois_record =
  creationDate :: "string option"
  registered :: "string option"
  created :: "string option"

text \<open>\<open>await whois(domain)\<close> resolves with a record or rejects with an error.\<close>

datatype whois_outcome = WhoisResolved whois_record | WhoisRejected string

text \<open>
  \<open>getDomainAge\<close>. \<open>parse_date s\<close> is the time value of \<open>new Date(s)\<close>, \<open>None\<close> for an
  invalid date, and \<open>now\<close> the time value of the clock. First the \<open>try\<close> block: it
  returns a value, falls through its end (\<open>Returned None\<close>) or throws, which it does
  when the awaited promise rejects.
\<close>

definition getDomainAge_try ::
  "(string \<Rightarrow> int option) \<Rightarrow> int \<Rightarrow> whois_outcome \<Rightarrow> jsnum option completion" where
  "getDomainAge_try parse_date now outcome =
     (case outcome of
        WhoisRejected error \<Rightarrow> Raised error
      | WhoisResolved result \<Rightarrow>
          (let date = js_or (js_or (creationDate result) (registered result)) (created result)
           in if truthy date then Returned (Some (age_in_days now (parse_date (the date))))
              else Returned None))"

text \<open>
  The \<open>catch\<close> block logs the error; after it, and after a \<open>try\<close> block that did not
  return, comes \<open>return null\<close>.
\<close>

definition getDomainAge ::
  "(string \<Rightarrow> int option) \<Rightarrow> int \<Rightarrow> whois_outcome \<Rightarrow> jsnum completion" where
  "getDomainAge parse_date now outcome =
     (case getDomainAge_try parse_date now outcome of
        Raised error \<Rightarrow> Returned Null
      | Returned None \<Rightarrow> Returned Null
      | Returned (Some age) \<Rightarrow> Returned age)"

text \<open>
  The registration-age lookup in the words of the specification: the earliest of the dates
  present, and the whole number of days between it and the clock, rounded up.
\<close>

definition present_dates :: "(string \<Rightarrow> int option) \<Rightarrow> whois_record \<Rightarrow> int list" where
  "present_dates parse_date result =
     concat (map (\<lambda>v. case v of
                         None \<Rightarrow> []
                       | Some s \<Rightarrow> (case parse_date s of None \<Rightarrow> [] | Some t \<Rightarrow> [t]))
       [creationDate result, registered result, created result])"

definition days_between :: "int \<Rightarrow> int \<Rightarrow> int" where
  "days_between now t = \<lceil>of_int \<bar>now - t\<bar> / (86400000 :: rat)\<rceil>"

definition lookupDomainAge_spec :: "(string \<Rightarrow> int option) \<Rightarrow> int \<Rightarrow> whois_record \<Rightarrow> jsnum" where
  "lookupDomainAge_spec parse_date now result =
     (case present_dates parse_date result of
        [] \<Rightarrow> Null
      | t # ts \<Rightarrow> Num (days_between now (fold min ts t)))"

text \<open>The certificate of the peer; only \<open>valid_from\<close> is read.\<close>

record certificate =
  valid_from :: "string option"

text \<open>
  What happens to the socket of \<open>getTLSAge\<close>: \<open>connect\<close> throws, the socket emits
  \<open>error\<close>, the five seconds pass, or the handshake completes and \<open>getPeerCertificate\<close>
  gives a certificate object or nothing. The promise takes the first of these.
\<close>

datatype tls_outcome =
  ConnectThrows string | SocketError string | SocketTimeout | SecureConnect "certificate option"

text \<open>
  \<open>getTLSAge\<close> resolves its promise from the callbacks of the socket; a \<open>connect\<close>
  that throws is caught, and the \<open>catch\<close> block resolves with \<open>null\<close>.
\<close>

definition getTLSAge_try ::
  "(string \<Rightarrow> int option) \<Rightarrow> int \<Rightarrow> tls_outcome \<Rightarrow> jsnum completion" where
  "getTLSAge_try parse_date now outcome =
     (case outcome of
        ConnectThrows error \<Rightarrow> Raised error
      | SocketError error \<Rightarrow> Returned Null
      | SocketTimeout \<Rightarrow> Returned Null
      | SecureConnect cert \<Rightarrow>
          (case cert of
             None \<Rightarrow> Returned Null
           | Some c \<Rightarrow>
               if truthy (valid_from c)
               then Returned (age_in_days now (parse_date (the (valid_from c))))
               else Returned Null))"

definition getTLSAge ::
  "(string \<Rightarrow> int option) \<Rightarrow> int \<Rightarrow> tls_outcome \<Rightarrow> jsnum completion" where
  "getTLSAge parse_date now outcome =
     (case getTLSAge_try parse_date now outcome of
        Raised error \<Rightarrow> Returned Null
      | Returned age \<Rightarrow> Returned age)"

text \<open>
  The answer of the archive index: \<open>fetch\<close> rejects, \<open>response.json()\<close> rejects, or the
  body is \<open>null\<close> or an array of rows of strings.
\<close>

datatype wayback_outcome =
  FetchRejected string | JsonRejected string | JsonBody "string list list option"

text \<open>\<open>s.substring(a, b)\<close> for \<open>a \<le> b\<close>\<close>

definition substring :: "nat \<Rightarrow> nat \<Rightarrow> string \<Rightarrow> string" where
  "substring a b s = take (b - a) (drop a s)"

text \<open>\<open>row[i]\<close>, missing beyond the end of the row.\<close>

definition at_index :: "string list \<Rightarrow> nat \<Rightarrow> string option" where
  "at_index row i = (if i < length row then Some (row ! i) else None)"

text \<open>\<open>getWaybackFirstSeen\<close>, with the same \<open>try\<close>, \<open>catch\<close> and \<open>return null\<close>.\<close>

definition getWaybackFirstSeen_try ::
  "(string \<Rightarrow> int option) \<Rightarrow> int \<Rightarrow> wayback_outcome \<Rightarrow> jsnum option completion" where
  "getWaybackFirstSeen_try parse_date now outcome =
     (case outcome of
        FetchRejected error \<Rightarrow> Raised error
      | JsonRejected error \<Rightarrow> Raised error
      | JsonBody None \<Rightarrow> Returned None
      | JsonBody (Some data) \<Rightarrow>
          if 1 < length data \<and> truthy (at_index (data ! 1) 1) then
            (let timestamp = the (at_index (data ! 1) 1);
                 firstSeen = parse_date (substring 0 4 timestamp @ ''-''
                               @ substring 4 6 timestamp @ ''-'' @ substring 6 8 timestamp)
             in Returned (Some (age_in_days now firstSeen)))
          else Returned None)"

definition getWaybackFirstSeen ::
  "(string \<Rightarrow> int option) \<Rightarrow> int \<Rightarrow> wayback_outcome \<Rightarrow> jsnum completion" where
  "getWaybackFirstSeen parse_date now outcome =
     (case getWaybackFirstSeen_try parse_date now outcome of
        Raised error \<Rightarrow> Returned Null
      | Returned None \<Rightarrow> Returned Null
      | Returned (Some age) \<Rightarrow> Returned age)"

text \<open>The first of the three properties, in the order of the source, that is not falsy.\<close>

definition first_present :: "whois_record \<Rightarrow> string option" where
  "first_present result =
     (case filter truthy [creationDate result, registered result, created result] of
        [] \<Rightarrow> None
      | v # vs \<Rightarrow> v)"

section \<open>Sample inputs\<close>

text \<open>A page with nothing suspicious, for which every lookup returned \<open>null\<close>.\<close>

definition quiet_input :: scan_inputs where
  "quiet_input =
     \<lparr>domainAge = Null, tlsAge = Null, hasPasswordForm = False, hasActionMismatch = False,
      suspiciousFormPatterns = [], externalHostsCount = 0, foundSuspiciousKeywords = [],
      suspiciousLinkPatterns = [], hasPopups = False, hasRedirects = False,
      suspiciousIframes = []\<rparr>"

text \<open>The same page with a password form.\<close>

definition password_input :: scan_inputs where
  "password_input = quiet_input\<lparr>hasPasswordForm := True\<rparr>"

text \<open>A domain registered three days ago, a password form and four suspicious keywords.\<close>

definition boundary_input :: scan_inputs where
  "boundary_input =
     quiet_input\<lparr>domainAge := Num 3, hasPasswordForm := True,
       foundSuspiciousKeywords := [''urgent'', ''verify'', ''account'', ''login'']\<rparr>"

text \<open>A domain registered ten days ago and nothing else.\<close>

definition recent_domain_input :: scan_inputs where
  "recent_domain_input = quiet_input\<lparr>domainAge := Num 10\<rparr>"

text \<open>
  A date parser for the samples below: the time values of three calendar dates, in
  milliseconds since the epoch, and an invalid date for every other string.
\<close>

definition sample_parse_date :: "string \<Rightarrow> int option" where
  "sample_parse_date s =
     (if s = ''2023-12-22'' then Some 1703203200000
      else if s = ''2024-01-01'' then Some 1704067200000
      else if s = ''2024-01-03'' then Some 1704240000000
      else None)"

text \<open>The clock at midnight of 2024-01-01 and of 2024-01-11.\<close>

definition new_year :: int where
  "new_year = 1704067200000"

definition eleventh_of_january :: int where
  "eleventh_of_january = 1704931200000"

text \<open>A record whose creation date is later than its registration date.\<close>

definition two_dates_record :: whois_record where
  "two_dates_record =
     \<lparr>creationDate = Some ''2024-01-01'', registered = Some ''2023-12-22'', created = None\<rparr>"

text \<open>A record whose only date lies two days after the clock \<open>new_year\<close>.\<close>

definition future_record :: whois_record where
  "future_record = \<lparr>creationDate = Some ''2024-01-03'', registered = None, created = None\<rparr>"

text \<open>A record whose only date is text that is no date.\<close>

definition unparsable_record :: whois_record where
  "unparsable_record = \<lparr>creationDate = Some ''unknown'', registered = None, created = None\<rparr>"

text \<open>A URL parser that knows one URL.\<close>

definition sample_hostname_of :: "string \<Rightarrow> string option" where
  "sample_hostname_of url =
     (if url = ''https://login.example.co.uk/path'' then Some ''login.example.co.uk''
      else None)"

section \<open>Facts about the rounding\<close>

lemma bitlen_bounds:
  "0 < k \<Longrightarrow> 2 ^ (bitlen k - 1) \<le> k \<and> k < 2 ^ bitlen k"
proof (induction k rule: bitlen.induct)
  case (1 k)
  show ?case
  proof (cases "k div 2 \<le> 0")
    case True
    with "1.prems" have "k = 1" by presburger
    then show ?thesis by (simp add: bitlen.simps[of 1] bitlen.simps[of 0])
  next
    case False
    then have pos: "0 < k div 2" by simp
    from "1.prems" have k0: "\<not> k \<le> 0" by simp
    let ?b = "bitlen (k div 2)"
    from "1.IH"[OF k0 pos] have lo: "2 ^ (?b - 1) \<le> k div 2" and hi: "k div 2 < 2 ^ ?b"
      by simp_all
    have bpos: "0 < ?b" using pos by (simp add: bitlen.simps[of "k div 2"])
    have eq: "bitlen k = Suc ?b" using k0 by (simp add: bitlen.simps[of k])
    have "(2::int) ^ ?b = 2 * 2 ^ (?b - 1)" using bpos by (cases ?b) simp_all
    with lo have "2 ^ ?b \<le> 2 * (k div 2)" by simp
    then have l: "2 ^ ?b \<le> k" by presburger
    from hi have "k div 2 + 1 \<le> 2 ^ ?b" by simp
    then have "2 * (k div 2) + 2 \<le> 2 * 2 ^ ?b" by simp
    then have h: "k < 2 * 2 ^ ?b" by presburger
    show ?thesis using l h eq by simp
  qed
qed

lemma bitlen_pos: "0 < k \<Longrightarrow> 0 < bitlen k"
  by (simp add: bitlen.simps[of k])

lemma ilog2_bounds:
  assumes "0 < x"
  shows "power_int 2 (ilog2 x) \<le> x" and "x < power_int 2 (ilog2 x + 1)"
proof -
  have "power_int 2 (ilog2 x) \<le> x \<and> x < power_int 2 (ilog2 x + 1)"
  proof (cases "1 \<le> x")
    case True
    define m where "m = \<lfloor>x\<rfloor>"
    have mpos: "0 < m" using True by (simp add: m_def)
    have mx: "of_int m \<le> x" by (simp add: m_def)
    have xm: "x < of_int m + 1" by (simp add: m_def) linarith
    let ?b = "bitlen m"
    from bitlen_bounds[OF mpos] have lo: "2 ^ (?b - 1) \<le> m" and hi: "m < 2 ^ ?b"
      by simp_all
    have bpos: "0 < ?b" by (rule bitlen_pos[OF mpos])
    have e: "ilog2 x = int ?b - 1" using True by (simp add: ilog2_def m_def)
    have e1: "int ?b - 1 = int (?b - 1)" using bpos by simp
    have "(2::rat) ^ (?b - 1) = of_int (2 ^ (?b - 1))" by simp
    also have "\<dots> \<le> of_int m" using lo by (simp only: of_int_le_iff)
    finally have "(2::rat) ^ (?b - 1) \<le> of_int m" .
    then have A: "(2::rat) ^ (?b - 1) \<le> x" using mx by (rule order_trans)
    have "m + 1 \<le> 2 ^ ?b" using hi by simp
    then have "(of_int (m + 1) :: rat) \<le> of_int (2 ^ ?b)" by (simp only: of_int_le_iff)
    then have B: "x < (2::rat) ^ ?b" using xm by simp
    have pA: "power_int (2::rat) (int ?b - 1) = 2 ^ (?b - 1)"
      by (simp only: e1 power_int_of_nat)
    have pB: "power_int (2::rat) (int ?b - 1 + 1) = 2 ^ ?b" by simp
    show ?thesis using A B by (simp only: e pA pB)
  next
    case False
    with assms have x1: "x < 1" by simp
    define y where "y = 1 / x"
    have y1: "1 < y" using assms x1 by (simp add: y_def)
    define m where "m = \<lceil>y\<rceil> - 1"
    have c2: "2 \<le> \<lceil>y\<rceil>" using y1 by linarith
    have mpos: "0 < m" using c2 by (simp add: m_def)
    have m_eq: "(of_int m :: rat) = of_int \<lceil>y\<rceil> - 1" by (simp add: m_def)
    have my: "of_int m < y" using m_eq by linarith
    have ym: "y \<le> of_int m + 1" using m_eq by linarith
    let ?b = "bitlen m"
    from bitlen_bounds[OF mpos] have lo: "2 ^ (?b - 1) \<le> m" and hi: "m < 2 ^ ?b"
      by simp_all
    have bpos: "0 < ?b" by (rule bitlen_pos[OF mpos])
    have e: "ilog2 x = - int ?b" using False by (simp add: ilog2_def m_def y_def)
    have "m + 1 \<le> 2 ^ ?b" using hi by simp
    then have "(of_int (m + 1) :: rat) \<le> of_int (2 ^ ?b)" by (simp only: of_int_le_iff)
    then have "y \<le> 2 ^ ?b" using ym by simp
    then have "1 / x \<le> 2 ^ ?b" by (simp add: y_def)
    then have A: "1 / 2 ^ ?b \<le> x" using assms by (simp add: field_simps)
    have "(2::rat) ^ (?b - 1) = of_int (2 ^ (?b - 1))" by simp
    also have "\<dots> \<le> of_int m" using lo by (simp only: of_int_le_iff)
    finally have "(2::rat) ^ (?b - 1) \<le> of_int m" .
    then have "(2::rat) ^ (?b - 1) < y" using my by (rule le_less_trans)
    then have "2 ^ (?b - 1) < 1 / x" by (simp add: y_def)
    then have B: "x < 1 / 2 ^ (?b - 1)" using assms by (simp add: field_simps)
    have p1: "power_int (2::rat) (- int ?b) = 1 / 2 ^ ?b"
      by (simp add: power_int_minus field_simps)
    have "- int ?b + 1 = - int (?b - 1)" using bpos by simp
    then have "power_int (2::rat) (- int ?b + 1) = power_int 2 (- int (?b - 1))"
      by (rule arg_cong)
    also have "\<dots> = 1 / 2 ^ (?b - 1)"
      by (simp only: power_int_minus power_int_of_nat inverse_eq_divide)
    finally have p2: "power_int (2::rat) (- int ?b + 1) = 1 / 2 ^ (?b - 1)" .
    show ?thesis using A B by (simp only: e p1 p2)
  qed
  then show "power_int 2 (ilog2 x) \<le> x" and "x < power_int 2 (ilog2 x + 1)" by simp_all
qed

lemma round_half_even_err: "\<bar>of_int (round_half_even q) - q\<bar> \<le> 1 / 2"
  unfolding round_half_even_def Let_def by (auto simp: abs_if) linarith+

lemma round_half_even_of_int [simp]: "round_half_even (of_int n) = n"
  by (simp add: round_half_even_def)

lemma round_half_even_nonneg: "0 \<le> q \<Longrightarrow> 0 \<le> round_half_even q"
  unfolding round_half_even_def Let_def by (auto simp: )

lemma round64_zero [simp]: "round64 0 = 0"
  by (simp add: round64_def)

lemma round64_err: "\<bar>round64 x - x\<bar> \<le> \<bar>x\<bar> / 2 ^ 53"
proof (cases "x = 0")
  case True
  then show ?thesis by simp
next
  case False
  define a where "a = \<bar>x\<bar>"
  have apos: "0 < a" using False by (simp add: a_def)
  define u :: rat where "u = power_int 2 (ilog2 a - 52)"
  have upos: "0 < u" by (simp add: u_def)
  define n where "n = round_half_even (a / u)"
  have r: "round64 x = sgn x * (of_int n * u)"
    using False by (simp add: round64_def Let_def a_def u_def n_def)
  have xa: "x = sgn x * a" by (simp add: a_def mult_sgn_abs)
  have "round64 x - x = sgn x * (of_int n * u - a)"
    by (subst xa, subst r) (simp add: algebra_simps)
  then have "\<bar>round64 x - x\<bar> = \<bar>of_int n * u - a\<bar>"
    using False by (simp add: abs_mult abs_sgn_eq)
  also have "of_int n * u - a = (of_int n - a / u) * u"
    using upos by (simp add: field_simps)
  also have "\<bar>(of_int n - a / u) * u\<bar> = \<bar>of_int n - a / u\<bar> * u"
    using upos by (simp add: abs_mult)
  also have "\<dots> \<le> (1 / 2) * u"
    using round_half_even_err[of "a / u"] upos
    by (intro mult_right_mono) (simp_all add: n_def)
  also have "u = power_int 2 (ilog2 a) / 2 ^ 52"
    by (simp add: u_def power_int_diff)
  also have "(1 / 2) * (power_int 2 (ilog2 a) / 2 ^ 52) \<le> (1 / 2) * (a / 2 ^ 52)"
    using ilog2_bounds(1)[OF apos] by (simp add: divide_right_mono)
  also have "\<dots> = \<bar>x\<bar> / 2 ^ 53" by (simp add: a_def)
  finally show ?thesis .
qed

lemma round64_nonneg: "0 \<le> x \<Longrightarrow> 0 \<le> round64 x"
  by (auto simp: round64_def Let_def intro!: mult_nonneg_nonneg round_half_even_nonneg divide_nonneg_nonneg)

lemma round64_of_int:
  assumes "\<bar>k\<bar> < 2 ^ 53"
  shows "round64 (of_int k) = of_int k"
proof (cases "k = 0")
  case True
  then show ?thesis by simp
next
  case False
  define a :: rat where "a = of_int \<bar>k\<bar>"
  have a1: "1 \<le> a" using False by (simp add: a_def) 
  have apos: "0 < a" using a1 by simp
  define e where "e = ilog2 a"
  have lo: "power_int 2 e \<le> a" and hi: "a < power_int 2 (e + 1)"
    using ilog2_bounds[OF apos] by (simp_all add: e_def)
  have "a < 2 ^ 53" using assms unfolding a_def
    by (metis of_int_less_iff of_int_numeral of_int_power)
  with lo have "power_int (2::rat) e < power_int 2 53" by simp
  then have "e < 53" by (rule power_int_le_imp_less_exp[rotated]) simp_all
  then have e52: "e \<le> 52" by simp
  define d where "d = nat (52 - e)"
  have u: "power_int (2::rat) (e - 52) = 1 / 2 ^ d"
  proof -
    have "e - 52 = - int d" using e52 by (simp add: d_def)
    then show ?thesis by (simp add: power_int_minus inverse_eq_divide)
  qed
  have q: "a / (1 / 2 ^ d) = of_int (\<bar>k\<bar> * 2 ^ d)" by (simp add: a_def)
  have abs_eq: "\<bar>of_int k :: rat\<bar> = a" by (simp add: a_def)
  have k0: "(of_int k :: rat) \<noteq> 0" using False by simp
  have "round64 (of_int k) = sgn (of_int k) * (of_int (\<bar>k\<bar> * 2 ^ d) * (1 / 2 ^ d))"
    using k0 unfolding round64_def Let_def abs_eq e_def[symmetric] u q
    by (simp only: round_half_even_of_int if_False)
  also have "\<dots> = sgn (of_int k) * a" by (simp add: a_def)
  also have "\<dots> = of_int k" unfolding abs_eq[symmetric] by (rule mult_sgn_abs)
  finally show ?thesis .
qed

lemma round64_one [simp]: "round64 1 = 1"
  using round64_of_int[of 1] by simp

lemma round64_upper: "0 \<le> x \<Longrightarrow> round64 x \<le> x + x / 2 ^ 53"
proof -
  assume "0 \<le> x"
  then have "\<bar>round64 x - x\<bar> \<le> x / 2 ^ 53" using round64_err[of x] by simp
  then show ?thesis by linarith
qed

lemma round64_lower: "0 \<le> x \<Longrightarrow> x - x / 2 ^ 53 \<le> round64 x"
proof -
  assume "0 \<le> x"
  then have "\<bar>round64 x - x\<bar> \<le> x / 2 ^ 53" using round64_err[of x] by simp
  then show ?thesis by linarith
qed

section \<open>The rules of the code are the rules of the table\<close>

lemma domain_age_rule_eq:
  "domain_age_rule inp l = apply_rule inp (apply_rule inp l NewDomain) RecentDomain"
  by (simp add: domain_age_rule_def apply_rule_def fires_def rule_weight_def)

lemma tls_rule_eq: "tls_rule inp l = apply_rule inp l NewCertificate"
  by (simp add: tls_rule_def apply_rule_def fires_def rule_weight_def)

lemma password_rule_eq: "password_rule inp l = apply_rule inp l PasswordForm"
  by (simp add: password_rule_def apply_rule_def fires_def rule_weight_def)

lemma mismatch_rule_eq: "mismatch_rule inp l = apply_rule inp l ActionMismatch"
  by (simp add: mismatch_rule_def apply_rule_def fires_def rule_weight_def)

lemma form_patterns_rule_eq: "form_patterns_rule inp l = apply_rule inp l SuspiciousForms"
  by (simp add: form_patterns_rule_def apply_rule_def fires_def rule_weight_def)

lemma external_hosts_rule_eq: "external_hosts_rule inp l = apply_rule inp l HighExternalHosts"
  by (simp add: external_hosts_rule_def apply_rule_def fires_def rule_weight_def)

lemma keywords_rule_eq: "keywords_rule inp l = apply_rule inp l SuspiciousKeywords"
  by (simp add: keywords_rule_def apply_rule_def fires_def rule_weight_def)

lemma links_rule_eq: "links_rule inp l = apply_rule inp l SuspiciousLinks"
  by (simp add: links_rule_def apply_rule_def fires_def rule_weight_def)

lemma popups_rule_eq: "popups_rule inp l = apply_rule inp l PopupsRedirects"
  by (simp add: popups_rule_def apply_rule_def fires_def rule_weight_def)

lemma iframes_rule_eq: "iframes_rule inp l = apply_rule inp l SuspiciousIframes"
  by (simp add: iframes_rule_def apply_rule_def fires_def rule_weight_def)

lemma run_rules_foldl:
  "run_rules inp =
     foldl (apply_rule inp) \<lparr>l_score = 0, l_reasons = [], l_riskFactors = []\<rparr> rule_order"
  by (simp add: run_rules_def rule_order_def domain_age_rule_eq tls_rule_eq password_rule_eq
      mismatch_rule_eq form_patterns_rule_eq external_hosts_rule_eq keywords_rule_eq
      links_rule_eq popups_rule_eq iframes_rule_eq)

lemma foldl_apply_rule_reasons:
  "l_reasons (foldl (apply_rule inp) l rs)
     = l_reasons l @ map (rule_reason inp) (filter (fires inp) rs)"
  by (induction rs arbitrary: l) (simp_all add: apply_rule_def fire_def)

lemma foldl_apply_rule_factors:
  "l_riskFactors (foldl (apply_rule inp) l rs)
     = l_riskFactors l @ map (rule_factor inp) (filter (fires inp) rs)"
  by (induction rs arbitrary: l) (simp_all add: apply_rule_def fire_def rule_factor_def)

lemma foldl_apply_rule_score:
  "l_score (foldl (apply_rule inp) l rs)
     = foldl fadd (l_score l) (map (\<lambda>r. round64 (rule_weight r)) (filter (fires inp) rs))"
  by (induction rs arbitrary: l) (simp_all add: apply_rule_def fire_def)

lemma run_rules_reasons: "l_reasons (run_rules inp) = map (rule_reason inp) (fired inp)"
  by (simp add: run_rules_foldl foldl_apply_rule_reasons fired_def)

lemma run_rules_factors: "l_riskFactors (run_rules inp) = map (rule_factor inp) (fired inp)"
  by (simp add: run_rules_foldl foldl_apply_rule_factors fired_def)

lemma run_rules_score:
  "l_score (run_rules inp) = foldl fadd 0 (map (\<lambda>r. round64 (rule_weight r)) (fired inp))"
  by (simp add: run_rules_foldl foldl_apply_rule_score fired_def)

lemma run_rules_score_factors:
  "l_score (run_rules inp) = foldl fadd 0 (map weight (l_riskFactors (run_rules inp)))"
  by (simp add: run_rules_score run_rules_factors rule_factor_def o_def)

section \<open>The running sum stays next to the exact sum\<close>

lemma hundredths_le: "hundredths r \<le> 35"
  by (cases r) simp_all

lemma length_fired_le: "length (fired inp) \<le> 11"
proof -
  have "length (fired inp) \<le> length rule_order"
    unfolding fired_def by (rule length_filter_le)
  then show ?thesis by (simp add: rule_order_def)
qed

lemma sum_rule_weight:
  "sum_list (map rule_weight rs) = of_nat (sum_list (map hundredths rs)) / 100"
  by (induction rs) (simp_all add: rule_weight_def add_divide_distrib)

lemma fadd_weight_near:
  assumes near: "\<bar>s - of_nat k / 100\<bar> \<le> of_nat n / 2 ^ 49"
    and k: "k \<le> 35 * n" and n: "n \<le> 11" and h: "h \<le> 35"
  shows "\<bar>fadd s (round64 (of_nat h / 100)) - of_nat (k + h) / 100\<bar> \<le> of_nat (Suc n) / 2 ^ 49"
proof -
  define w where "w = round64 (of_nat h / 100)"
  define c :: rat where "c = of_nat h / 100"
  define d :: rat where "d = of_nat k / 100"
  have nb: "(of_nat n :: rat) \<le> 11" using n by (metis of_nat_le_iff of_nat_numeral)
  have "k \<le> 385" using k n by simp
  then have kb: "(of_nat k :: rat) \<le> 385" by (metis of_nat_le_iff of_nat_numeral)
  have hb: "(of_nat h :: rat) \<le> 35" using h by (metis of_nat_le_iff of_nat_numeral)
  have c0: "0 \<le> c" and c1: "c \<le> 1" using hb by (simp_all add: c_def)
  have d0: "0 \<le> d" and d4: "d \<le> 4" using kb by (simp_all add: d_def)
  have "\<bar>w - c\<bar> \<le> \<bar>c\<bar> / 2 ^ 53" unfolding w_def c_def by (rule round64_err)
  then have ew: "\<bar>w - c\<bar> \<le> 1 / 2 ^ 53" using c0 c1 by (simp add: field_simps)
  have es: "\<bar>s - d\<bar> \<le> 11 / 2 ^ 49"
    using near nb unfolding d_def by (simp add: field_simps)
  have small: "(11::rat) / 2 ^ 49 \<le> 1" "(1::rat) / 2 ^ 53 \<le> 1" by simp_all
  have x8: "\<bar>s + w\<bar> \<le> 8" using es ew c0 c1 d0 d4 small by linarith
  have "\<bar>round64 (s + w) - (s + w)\<bar> \<le> \<bar>s + w\<bar> / 2 ^ 53" by (rule round64_err)
  then have er: "\<bar>round64 (s + w) - (s + w)\<bar> \<le> 8 / 2 ^ 53" using x8 by (simp add: field_simps)
  have near': "\<bar>s - d\<bar> \<le> of_nat n / 2 ^ 49" using near by (simp add: d_def)
  have "(8::rat) / 2 ^ 53 + 1 / 2 ^ 53 \<le> 1 / 2 ^ 49" by simp
  then have "\<bar>round64 (s + w) - (d + c)\<bar> \<le> of_nat n / 2 ^ 49 + 1 / 2 ^ 49"
    using er ew near' by linarith
  then show ?thesis
    by (simp add: fadd_def w_def c_def d_def add_divide_distrib)
qed

lemma foldl_fadd_near:
  assumes "\<bar>s - of_nat k / 100\<bar> \<le> of_nat n / 2 ^ 49"
    and "k \<le> 35 * n" and "n + length rs \<le> 12"
  shows "\<bar>foldl fadd s (map (\<lambda>r. round64 (rule_weight r)) rs)
           - of_nat (k + sum_list (map hundredths rs)) / 100\<bar>
         \<le> of_nat (n + length rs) / 2 ^ 49"
  using assms
proof (induction rs arbitrary: s k n)
  case Nil
  then show ?case by simp
next
  case (Cons r rs)
  from Cons.prems(3) have n: "n \<le> 11" by simp
  have step: "\<bar>fadd s (round64 (of_nat (hundredths r) / 100)) - of_nat (k + hundredths r) / 100\<bar>
                \<le> of_nat (Suc n) / 2 ^ 49"
    by (rule fadd_weight_near[OF Cons.prems(1) Cons.prems(2) n hundredths_le])
  have k': "k + hundredths r \<le> 35 * Suc n"
    using Cons.prems(2) hundredths_le[of r] by simp
  have len: "Suc n + length rs \<le> 12" using Cons.prems(3) by simp
  from Cons.IH[OF step k' len] show ?case
    by (simp add: rule_weight_def add.assoc)
qed

lemma run_rules_score_near:
  "\<bar>l_score (run_rules inp) - fired_weight_sum inp\<bar> \<le> 11 / 2 ^ 49"
proof -
  have "\<bar>(0::rat) - of_nat 0 / 100\<bar> \<le> of_nat 0 / 2 ^ 49" by simp
  from foldl_fadd_near[OF this, of "fired inp"] length_fired_le[of inp]
  have "\<bar>l_score (run_rules inp) - fired_weight_sum inp\<bar>
          \<le> of_nat (length (fired inp)) / 2 ^ 49"
    by (simp add: run_rules_score fired_weight_sum_def sum_rule_weight)
  also have "\<dots> \<le> 11 / 2 ^ 49"
  proof -
    have "(of_nat (length (fired inp)) :: rat) \<le> 11"
      using length_fired_le[of inp] by (metis of_nat_le_iff of_nat_numeral)
    then show ?thesis by (simp add: field_simps)
  qed
  finally show ?thesis .
qed

section \<open>Rounding to two decimals recovers the exact sum\<close>

lemma math_round_near:
  assumes "\<bar>v - of_int m\<bar> < 1 / 2"
  shows "math_round v = m"
proof -
  have "of_int m \<le> v + 1 / 2" and "v + 1 / 2 < of_int m + 1" using assms by linarith+
  then show ?thesis unfolding math_round_def by (rule floor_unique)
qed

lemma round2_near:
  assumes near: "\<bar>s - of_nat k / 100\<bar> \<le> 11 / 2 ^ 49"
  shows "round2 (min s 1) = round64 (of_nat (min k 100) / 100)"
proof -
  define t where "t = min s 1"
  define m where "m = min k 100"
  have tm: "\<bar>t * 100 - of_nat m\<bar> \<le> 1100 / 2 ^ 49"
  proof (cases "100 \<le> k")
    case True
    then have "(100::rat) \<le> of_nat k" by (metis of_nat_le_iff of_nat_numeral)
    then have "1 - 11 / 2 ^ 49 \<le> s" using near by linarith
    moreover have "(0::rat) \<le> 11 / 2 ^ 49" by simp
    ultimately have "1 - 11 / 2 ^ 49 \<le> t" and "t \<le> 1" by (simp_all add: t_def)
    moreover have "(of_nat m :: rat) = 100" using True by (simp add: m_def)
    ultimately show ?thesis by linarith
  next
    case False
    then have "k \<le> 99" by simp
    then have "(of_nat k :: rat) \<le> 99" by (metis of_nat_le_iff of_nat_numeral)
    moreover have "(11::rat) / 2 ^ 49 < 1 / 100" by simp
    ultimately have "s < 1" using near by linarith
    then have ts: "t = s" by (simp add: t_def)
    have mk: "m = k" using False by (simp add: m_def)
    have "s * 100 - of_nat k = 100 * (s - of_nat k / 100)" by simp
    then have "\<bar>s * 100 - of_nat k\<bar> = 100 * \<bar>s - of_nat k / 100\<bar>"
      by (simp only: abs_mult)
    also have "\<dots> \<le> 100 * (11 / 2 ^ 49)"
      using near by (intro mult_left_mono) simp_all
    finally show ?thesis by (simp add: ts mk)
  qed
  have mb: "(of_nat m :: rat) \<le> 100"
    unfolding m_def by (metis min.cobounded2 of_nat_le_iff of_nat_numeral)
  have m0: "(0::rat) \<le> of_nat m" by simp
  have small: "(1100::rat) / 2 ^ 49 \<le> 1 / 8" "(101::rat) / 2 ^ 53 \<le> 1 / 8" by simp_all
  have t101: "\<bar>t * 100\<bar> \<le> 101" using tm mb m0 small by linarith
  have "\<bar>round64 (t * 100) - t * 100\<bar> \<le> \<bar>t * 100\<bar> / 2 ^ 53" by (rule round64_err)
  then have "\<bar>round64 (t * 100) - t * 100\<bar> \<le> 101 / 2 ^ 53"
    using t101 by (simp add: field_simps)
  then have "\<bar>round64 (t * 100) - of_nat m\<bar> < 1 / 2"
    using tm small by linarith
  then have "\<bar>round64 (t * 100) - of_int (int m)\<bar> < 1 / 2" by simp
  then have "math_round (fmul t 100) = int m"
    unfolding fmul_def by (rule math_round_near)
  then show ?thesis
    by (simp add: round2_def fdiv_def t_def m_def)
qed

lemma scan_score_round2: "score (scan inp) = round2 (min (l_score (run_rules inp)) 1)"
  by (simp add: scan_def round2_def Let_def)

lemma min_hundredths: "min (of_nat k / 100) (1::rat) = of_nat (min k 100) / 100"
proof (cases "100 \<le> k")
  case True
  then have "(100::rat) \<le> of_nat k" by (metis of_nat_le_iff of_nat_numeral)
  then show ?thesis using True by (simp add: min_def)
next
  case False
  then have "k \<le> 99" by simp
  then have "(of_nat k :: rat) \<le> 99" by (metis of_nat_le_iff of_nat_numeral)
  then show ?thesis using False by (simp add: min_def)
qed

lemma scan_score_exact: "score (scan inp) = round64 (min (fired_weight_sum inp) 1)"
proof -
  define k where "k = sum_list (map hundredths (fired inp))"
  have fw: "fired_weight_sum inp = of_nat k / 100"
    by (simp add: fired_weight_sum_def sum_rule_weight k_def)
  have "\<bar>l_score (run_rules inp) - of_nat k / 100\<bar> \<le> 11 / 2 ^ 49"
    using run_rules_score_near[of inp] by (simp add: fw)
  then have "round2 (min (l_score (run_rules inp)) 1) = round64 (of_nat (min k 100) / 100)"
    by (rule round2_near)
  then show ?thesis by (simp add: scan_score_round2 fw min_hundredths)
qed

lemma round64_hundredths_le_one:
  assumes "k \<le> 100"
  shows "round64 (of_nat k / 100) \<le> 1"
proof (cases "k = 100")
  case True
  then show ?thesis by simp
next
  case False
  with assms have "k \<le> 99" by simp
  then have "(of_nat k :: rat) \<le> 99" by (metis of_nat_le_iff of_nat_numeral)
  then have x: "(of_nat k :: rat) / 100 \<le> 99 / 100" by simp
  have "round64 (of_nat k / 100) \<le> of_nat k / 100 + (of_nat k / 100) / 2 ^ 53"
    by (rule round64_upper) simp
  moreover have "(of_nat k / 100 :: rat) / 2 ^ 53 \<le> (99 / 100) / 2 ^ 53"
    using x by (rule divide_right_mono) simp
  moreover have "((99::rat) / 100) / 2 ^ 53 \<le> 1 / 100" by simp
  ultimately show ?thesis using x by linarith
qed

lemma round64_hundredths_mono:
  assumes "k \<le> k'" and "k' \<le> 100"
  shows "round64 (of_nat k / 100) \<le> round64 (of_nat k' / 100)"
proof (cases "k = k'")
  case True
  then show ?thesis by simp
next
  case False
  with assms have "k + 1 \<le> k'" by simp
  then have "(of_nat (k + 1) :: rat) \<le> of_nat k'" by (simp only: of_nat_le_iff)
  then have gap: "(of_nat k :: rat) / 100 + 1 / 100 \<le> of_nat k' / 100" by simp
  have "(of_nat k' :: rat) \<le> 100" using assms(2) by (metis of_nat_le_iff of_nat_numeral)
  then have x': "(of_nat k' :: rat) / 100 \<le> 1" by simp
  then have x: "(of_nat k :: rat) / 100 \<le> 1" using gap by linarith
  have up: "round64 (of_nat k / 100) \<le> of_nat k / 100 + (of_nat k / 100) / 2 ^ 53"
    by (rule round64_upper) simp
  have lo: "of_nat k' / 100 - (of_nat k' / 100) / 2 ^ 53 \<le> round64 (of_nat k' / 100)"
    by (rule round64_lower) simp
  have e1: "(of_nat k / 100 :: rat) / 2 ^ 53 \<le> 1 / 2 ^ 53"
    using x by (rule divide_right_mono) simp
  have e2: "(of_nat k' / 100 :: rat) / 2 ^ 53 \<le> 1 / 2 ^ 53"
    using x' by (rule divide_right_mono) simp
  have "(1::rat) / 2 ^ 53 \<le> 1 / 200" by simp
  then show ?thesis using up lo e1 e2 gap by linarith
qed

section \<open>The score\<close>

text \<open>
  Claim C1. For every input of the scoring step, the reported score is the sum of the
  weights of the rules that fired, capped at 1.0, and it lies between 0 and 1. The sum is
  the exact sum of the decimal weights of the rule table; the score is the JavaScript
  number that denotes it (the nearest binary64 value), so the rounding errors of the
  running sum never reach the reported score.
\<close>

theorem scan_score_is_capped_weight_sum:
  "score (scan inp) = round64 (min (fired_weight_sum inp) 1)
   \<and> 0 \<le> score (scan inp) \<and> score (scan inp) \<le> 1"
proof -
  define k where "k = sum_list (map hundredths (fired inp))"
  have fw: "min (fired_weight_sum inp) 1 = of_nat (min k 100) / 100"
    by (simp add: fired_weight_sum_def sum_rule_weight k_def min_hundredths)
  have "0 \<le> round64 (of_nat (min k 100) / 100)" by (rule round64_nonneg) simp
  moreover have "round64 (of_nat (min k 100) / 100) \<le> 1"
    by (rule round64_hundredths_le_one) simp
  ultimately show ?thesis by (simp add: scan_score_exact fw)
qed

section \<open>The risk level\<close>

lemma thresholds_ordered: "round64 (4 / 10) < round64 (7 / 10)"
  by code_simp

lemma classify_spec_level: "classify s = spec_level s"
  using thresholds_ordered by (auto simp: classify_def spec_level_def)

lemma scan_level: "riskLevel (scan inp) = classify (capped_sum (riskFactors (scan inp)))"
  by (simp add: scan_def Let_def capped_sum_def run_rules_score_factors)

lemma scan_score_capped: "score (scan inp) = round2 (capped_sum (riskFactors (scan inp)))"
  by (simp add: scan_def Let_def capped_sum_def round2_def run_rules_score_factors)

lemma scan_level_fired: "riskLevel (scan inp) = classify (fired_capped_sum inp)"
  by (simp add: scan_def Let_def fired_capped_sum_def run_rules_score)

lemma scan_score_fired: "score (scan inp) = round2 (fired_capped_sum inp)"
  by (simp add: scan_def Let_def fired_capped_sum_def round2_def run_rules_score)

lemma capped_sum_fired: "capped_sum (riskFactors (scan inp)) = fired_capped_sum inp"
  by (simp add: scan_def Let_def capped_sum_def fired_capped_sum_def run_rules_score
      run_rules_score_factors[symmetric])

lemma fired_boundary_input:
  "fired boundary_input = [NewDomain, PasswordForm, SuspiciousKeywords]"
  by (simp add: fired_def rule_order_def fires_def boundary_input_def quiet_input_def)

lemma boundary_sum_high:
  "classify (min (fadd (fadd (fadd 0 (round64 (35 / 100))) (round64 (20 / 100)))
     (round64 (15 / 100))) 1) = HIGH"
  by code_simp

lemma boundary_input_level: "riskLevel (scan boundary_input) = HIGH"
  using boundary_sum_high
  by (simp add: scan_def Let_def run_rules_score fired_boundary_input rule_weight_def)

lemma boundary_input_score: "score (scan boundary_input) = round64 (7 / 10)"
  by (simp add: scan_score_exact fired_weight_sum_def fired_boundary_input rule_weight_def)

lemma spec_level_seven_tenths: "spec_level (round64 (7 / 10)) = MEDIUM"
  using thresholds_ordered by (simp add: spec_level_def)

lemma spec_level_four_tenths: "spec_level (round64 (4 / 10)) = LOW"
  using thresholds_ordered by (simp add: spec_level_def)

lemma spec_level_above_four_tenths: "spec_level (round64 (40001 / 100000)) = MEDIUM"
  by code_simp

lemma spec_level_above_seven_tenths: "spec_level (round64 (70001 / 100000)) = HIGH"
  by code_simp

text \<open>
  Claim C2 as stated derives the risk level from the reported score. For a domain that is
  three days old, a password form and four suspicious keywords the running sum
  \<open>0.35 + 0.20 + 0.15\<close> is \<open>0.7000000000000001\<close>: the reported score is \<open>0.7\<close>, for
  which the thresholds give MEDIUM, and the risk level of the result is HIGH.
\<close>

theorem level_not_from_reported_score:
  "score (scan boundary_input) = round64 (7 / 10)
   \<and> spec_level (score (scan boundary_input)) = MEDIUM
   \<and> riskLevel (scan boundary_input) = HIGH"
  by (simp add: boundary_input_score boundary_input_level spec_level_seven_tenths)

text \<open>
  Claim C2, amended. For every input the risk level is derived by the non-overlapping
  thresholds (above 0.7 HIGH, above 0.4 and up to 0.7 MEDIUM, up to 0.4 LOW) from the
  capped score as it is before the rounding to two decimals, that is from the capped
  floating-point sum of the weights of the rules that fired, which is also the capped
  running sum of the weights recorded in \<open>riskFactors\<close>; a score of 0.40 classifies as
  LOW, 0.40001 as MEDIUM, 0.70 as MEDIUM and 0.70001 as HIGH.
\<close>

theorem level_from_capped_score:
  "riskLevel (scan inp) = spec_level (fired_capped_sum inp)
   \<and> riskLevel (scan inp) = spec_level (capped_sum (riskFactors (scan inp)))
   \<and> spec_level (round64 (40 / 100)) = LOW
   \<and> spec_level (round64 (40001 / 100000)) = MEDIUM
   \<and> spec_level (round64 (70 / 100)) = MEDIUM
   \<and> spec_level (round64 (70001 / 100000)) = HIGH"
proof -
  have "round64 (40 / 100) = round64 (4 / 10)" and "round64 (70 / 100) = round64 (7 / 10)"
    by simp_all
  then show ?thesis
    by (simp only: scan_level_fired capped_sum_fired classify_spec_level spec_level_seven_tenths
        spec_level_four_tenths spec_level_above_four_tenths spec_level_above_seven_tenths
        simp_thms)
qed

text \<open>
  Claim C10. For every input the risk level is computed from the capped sum of the weights
  of the rules that fired, which is not rounded, and the reported score is that same sum
  rounded to two decimals: the level is a function of the unrounded value alone, so the
  rounding has no part in it. The sum is also the running sum of the weights recorded in
  \<open>riskFactors\<close>.
\<close>

theorem level_before_rounding:
  "riskLevel (scan inp) = classify (fired_capped_sum inp)
   \<and> score (scan inp) = round2 (fired_capped_sum inp)
   \<and> riskLevel (scan inp) = classify (capped_sum (riskFactors (scan inp)))
   \<and> score (scan inp) = round2 (capped_sum (riskFactors (scan inp)))"
  using scan_level_fired scan_score_fired scan_level scan_score_capped by simp

section \<open>Reasons and risk factors\<close>

lemma scan_reasons:
  "reasons (scan inp)
     = (if fired inp = [] then [fallback_reason] else map (rule_reason inp) (fired inp))"
  by (simp add: scan_def Let_def run_rules_reasons)

lemma scan_riskFactors: "riskFactors (scan inp) = map (rule_factor inp) (fired inp)"
  by (simp add: scan_def Let_def run_rules_factors)

text \<open>
  Claim C3. The reasons of a result are never empty. When at least one rule fires,
  \<open>riskFactors\<close> and \<open>reasons\<close> have the same length, one entry for each rule that
  fired, and the entries at the same index come from the same rule. When no rule fires,
  \<open>reasons\<close> holds the fallback entry alone and \<open>riskFactors\<close> is empty. The fallback
  entry is the sentence the claim quotes, which the code writes with a capital initial.
\<close>

theorem reasons_and_risk_factors:
  "reasons (scan inp) \<noteq> []
   \<and> (fired inp \<noteq> [] \<longrightarrow>
        length (riskFactors (scan inp)) = length (reasons (scan inp))
        \<and> length (reasons (scan inp)) = length (fired inp)
        \<and> (\<forall>i < length (fired inp).
             reasons (scan inp) ! i = rule_reason inp (fired inp ! i)
             \<and> riskFactors (scan inp) ! i = rule_factor inp (fired inp ! i)))
   \<and> (fired inp = [] \<longrightarrow>
        reasons (scan inp) = [''No obvious suspicious patterns detected'']
        \<and> riskFactors (scan inp) = [])"
  by (simp add: scan_reasons scan_riskFactors fallback_reason_def)

lemma fired_quiet_input: "fired quiet_input = []"
  by (simp add: fired_def rule_order_def fires_def quiet_input_def)

text \<open>
  Both cases occur: three rules fire for the first sample page and none for the second.
\<close>

theorem reasons_and_risk_factors_witness:
  "fired boundary_input \<noteq> []
   \<and> length (riskFactors (scan boundary_input)) = 3
   \<and> length (reasons (scan boundary_input)) = 3
   \<and> reasons (scan boundary_input) ! 1 = ''Contains password form''
   \<and> factor (riskFactors (scan boundary_input) ! 1) = ''Password Form''
   \<and> fired quiet_input = []
   \<and> reasons (scan quiet_input) = [''No obvious suspicious patterns detected'']
   \<and> riskFactors (scan quiet_input) = []"
  using reasons_and_risk_factors[of boundary_input] reasons_and_risk_factors[of quiet_input]
  by (simp add: fired_boundary_input fired_quiet_input rule_factor_def)

section \<open>Monotonicity\<close>

lemma sum_filter_contribution:
  "sum_list (map hundredths (filter (fires inp) rs)) = sum_list (map (contribution inp) rs)"
  by (induction rs) (simp_all add: contribution_def)

lemma contribution_domain_mono:
  assumes "condition inp NewDomain \<longrightarrow> condition inp' NewDomain"
    and "condition inp RecentDomain \<longrightarrow> condition inp' RecentDomain"
  shows "contribution inp NewDomain + contribution inp RecentDomain
           \<le> contribution inp' NewDomain + contribution inp' RecentDomain"
  using assms by (auto simp: contribution_def fires_def)

lemma contribution_mono:
  assumes "r \<noteq> RecentDomain" and "condition inp r \<longrightarrow> condition inp' r"
  shows "contribution inp r \<le> contribution inp' r"
  using assms by (auto simp: contribution_def fires_def)

lemma fired_hundredths_mono:
  assumes "list_all (\<lambda>q. condition inp q \<longrightarrow> condition inp' q) rule_order"
  shows "sum_list (map hundredths (fired inp)) \<le> sum_list (map hundredths (fired inp'))"
proof -
  have c: "condition inp q \<longrightarrow> condition inp' q" for q
    using assms by (cases q) (simp_all add: rule_order_def)
  have d: "contribution inp NewDomain + contribution inp RecentDomain
             \<le> contribution inp' NewDomain + contribution inp' RecentDomain"
    by (rule contribution_domain_mono) (rule c)+
  have r: "contribution inp q \<le> contribution inp' q" if "q \<noteq> RecentDomain" for q
    using that c by (rule contribution_mono)
  have "sum_list (map (contribution inp) rule_order)
          \<le> sum_list (map (contribution inp') rule_order)"
    using d r[of NewCertificate] r[of PasswordForm] r[of ActionMismatch] r[of SuspiciousForms]
      r[of HighExternalHosts] r[of SuspiciousKeywords] r[of SuspiciousLinks]
      r[of PopupsRedirects] r[of SuspiciousIframes]
    by (simp add: rule_order_def)
  then show ?thesis by (simp add: fired_def sum_filter_contribution)
qed

lemma score_mono:
  assumes "list_all (\<lambda>q. condition inp q \<longrightarrow> condition inp' q) rule_order"
  shows "score (scan inp) \<le> score (scan inp')"
proof -
  define k where "k = sum_list (map hundredths (fired inp))"
  define k' where "k' = sum_list (map hundredths (fired inp'))"
  have "k \<le> k'" unfolding k_def k'_def by (rule fired_hundredths_mono[OF assms])
  then have "min k 100 \<le> min k' 100" by simp
  then have "round64 (of_nat (min k 100) / 100) \<le> round64 (of_nat (min k' 100) / 100)"
    by (rule round64_hundredths_mono) simp
  then show ?thesis
    by (simp add: scan_score_exact fired_weight_sum_def sum_rule_weight min_hundredths
        k_def k'_def)
qed

text \<open>
  Claim C6. When one rule condition changes from false to true and every other rule
  condition stays as it is, the reported score does not decrease.
\<close>

theorem score_monotone_in_each_condition:
  assumes "flips inp inp' r"
  shows "score (scan inp) \<le> score (scan inp')"
proof (rule score_mono)
  from assms have r: "condition inp' r"
    and rest: "list_all (\<lambda>q. q = r \<or> condition inp q = condition inp' q) rule_order"
    by (simp_all add: flips_def)
  have "(q = r \<or> condition inp q = condition inp' q)
          \<longrightarrow> (condition inp q \<longrightarrow> condition inp' q)" for q
    using r by auto
  with rest show "list_all (\<lambda>q. condition inp q \<longrightarrow> condition inp' q) rule_order"
    unfolding list_all_iff by blast
qed

lemma flips_quiet_password: "flips quiet_input password_input PasswordForm"
  by (simp add: flips_def rule_order_def quiet_input_def password_input_def)

text \<open>
  Adding a password form to the quiet page changes one condition only.
\<close>

theorem score_monotone_in_each_condition_witness:
  "flips quiet_input password_input PasswordForm
   \<and> score (scan quiet_input) \<le> score (scan password_input)"
  using score_monotone_in_each_condition[OF flips_quiet_password] flips_quiet_password
  by simp

section \<open>The two domain-age rules\<close>

lemma domain_age_rule_score:
  "l_score (domain_age_rule inp l)
     = (if condition inp NewDomain then fadd (l_score l) (round64 (35 / 100))
        else if condition inp RecentDomain then fadd (l_score l) (round64 (15 / 100))
        else l_score l)"
  by (simp add: domain_age_rule_def fire_def)

lemma domain_age_rules_exclusive: "\<not> (fires inp NewDomain \<and> fires inp RecentDomain)"
  by (simp add: fires_def)

lemma show_ten: "show_int 10 = ''10''"
  by code_simp

lemma math_round_zero: "math_round 0 = 0"
  unfolding math_round_def by (rule floor_unique) simp_all

lemma fired_recent_domain_input: "fired recent_domain_input = [RecentDomain]"
  by (simp add: fired_def rule_order_def fires_def recent_domain_input_def quiet_input_def)

text \<open>
  Claim C5. In \<open>scan\<close> the two domain-age rules are the branches of one
  \<open>if ... else if\<close>, as the two facts above say. The copy of the scoring in the HTTP
  handler has the first rule only: for a domain registered ten days ago it adds nothing
  and reports the fallback reason, where \<open>scan\<close> adds 0.15.
\<close>

theorem server_scan_omits_recent_domain_rule:
  "sr_score (server_scan recent_domain_input) = 0
   \<and> sr_reasons (server_scan recent_domain_input) = [''No obvious suspicious patterns detected'']
   \<and> score (scan recent_domain_input) = round64 (15 / 100)
   \<and> reasons (scan recent_domain_input) = [''Domain age is 10 days (somewhat new)'']"
proof -
  have "server_scan recent_domain_input
          = \<lparr>sr_score = 0, sr_reasons = [''No obvious suspicious patterns detected'']\<rparr>"
    by (simp add: server_scan_def server_domain_age_rule_def server_tls_rule_def
        server_password_rule_def server_mismatch_rule_def server_external_hosts_rule_def
        recent_domain_input_def quiet_input_def fallback_reason_def
        fmul_def fdiv_def math_round_zero)
  moreover have "score (scan recent_domain_input) = round64 (15 / 100)"
    by (simp add: scan_score_exact fired_weight_sum_def fired_recent_domain_input
        rule_weight_def)
  moreover have "domainAge recent_domain_input = Num 10"
    by (simp add: recent_domain_input_def)
  then have "reasons (scan recent_domain_input) = [''Domain age is 10 days (somewhat new)'']"
    by (simp add: scan_reasons fired_recent_domain_input show_ten)
  ultimately show ?thesis by simp
qed

section \<open>The apex-domain heuristic\<close>

lemma split_not_Nil [simp]: "split c s \<noteq> []"
  by (induction s) (simp_all split: list.split)

lemma join_Cons: "ps \<noteq> [] \<Longrightarrow> join sep (p # ps) = p @ sep @ join sep ps"
  by (cases ps) simp_all

lemma join_split: "join [c] (split c s) = s"
proof (induction s)
  case Nil
  then show ?case by simp
next
  case (Cons x xs)
  show ?case
  proof (cases "x = c")
    case True
    then show ?thesis using Cons by (simp add: join_Cons)
  next
    case False
    obtain p ps where sp: "split c xs = p # ps" by (cases "split c xs") simp_all
    have "join [c] ((x # p) # ps) = x # join [c] (p # ps)"
      by (cases ps) simp_all
    then show ?thesis using Cons False sp by simp
  qed
qed

lemma split_no_separator: "l \<in> set (split c s) \<Longrightarrow> c \<notin> set l"
  by (induction s arbitrary: l) (auto split: list.splits if_splits)

lemma last_two:
  assumes "2 \<le> length xs"
  shows "drop (length xs - 2) xs = [xs ! (length xs - 2), xs ! (length xs - 1)]"
proof -
  define n where "n = length xs - 2"
  have len: "length xs = n + 2" using assms by (simp add: n_def)
  have a: "drop n xs = xs ! n # drop (Suc n) xs"
    by (rule Cons_nth_drop_Suc[symmetric]) (simp add: len)
  have b: "drop (Suc n) xs = xs ! Suc n # drop (Suc (Suc n)) xs"
    by (rule Cons_nth_drop_Suc[symmetric]) (simp add: len)
  have c: "drop (Suc (Suc n)) xs = []" using len by simp
  have e1: "length xs - 2 = n" and e2: "length xs - 1 = Suc n" using len by simp_all
  show ?thesis by (simp only: e1 e2 a b c)
qed

lemma getETLDPlusOne_resolve_spec:
  "getETLDPlusOne hostname_of url = resolve_spec (hostname_of url)"
  by (simp add: getETLDPlusOne_def resolve_spec_def Let_def last_two split: option.split)

text \<open>
  Claim C8. The resolver splits the parsed hostname at the dots, so that joining the labels
  with dots gives the hostname back; with at least two labels it returns the last two
  joined by a dot, otherwise the hostname, and \<open>null\<close> when the URL does not parse.
  For \<open>https://login.example.co.uk/path\<close>, whose hostname is \<open>login.example.co.uk\<close>,
  it returns \<open>co.uk\<close>.
\<close>

theorem getETLDPlusOne_last_two_labels:
  "getETLDPlusOne hostname_of url = resolve_spec (hostname_of url)
   \<and> (\<forall>h. join ''.'' (split (CHR ''.'') h) = h)
   \<and> (hostname_of ''https://login.example.co.uk/path'' = Some ''login.example.co.uk''
        \<longrightarrow> getETLDPlusOne hostname_of ''https://login.example.co.uk/path'' = Some ''co.uk'')"
  by (simp add: getETLDPlusOne_resolve_spec join_split resolve_spec_def)

text \<open>
  With a parser that knows the URL of the example.
\<close>

theorem getETLDPlusOne_last_two_labels_witness:
  "sample_hostname_of ''https://login.example.co.uk/path'' = Some ''login.example.co.uk''
   \<and> getETLDPlusOne sample_hostname_of ''https://login.example.co.uk/path'' = Some ''co.uk''
   \<and> getETLDPlusOne sample_hostname_of ''not a url'' = None"
  using getETLDPlusOne_last_two_labels[of sample_hostname_of "''https://login.example.co.uk/path''"]
    getETLDPlusOne_last_two_labels[of sample_hostname_of "''not a url''"]
  by (simp add: sample_hostname_of_def resolve_spec_def)

section \<open>The age lookups\<close>

lemma age_in_days_nonneg: "age_in_days now parsed = Num n \<Longrightarrow> 0 \<le> n"
proof (cases parsed)
  case None
  assume "age_in_days now parsed = Num n"
  with None show ?thesis by (simp add: age_in_days_def)
next
  case (Some t)
  assume a: "age_in_days now parsed = Num n"
  have "0 \<le> round64 (\<bar>fsub (of_int now) (of_int t)\<bar> / 86400000)"
    by (rule round64_nonneg) simp
  then have "0 \<le> \<lceil>round64 (\<bar>fsub (of_int now) (of_int t)\<bar> / 86400000)\<rceil>"
    by (simp add: ceiling_le_iff le_ceiling_iff)
  with a Some show ?thesis by (auto simp: age_in_days_def fdiv_def Let_def)
qed

lemma ceiling_round64_days:
  assumes d0: "0 \<le> d" and d53: "d < 2 ^ 53"
  shows "\<lceil>round64 (of_int d / 86400000)\<rceil> = \<lceil>of_int d / (86400000::rat)\<rceil>"
proof -
  define x :: rat where "x = of_int d / 86400000"
  define c where "c = \<lceil>x\<rceil>"
  have x0: "0 \<le> x" using d0 by (simp add: x_def)
  have xc: "x \<le> of_int c" and cx: "of_int c - 1 < x" unfolding c_def by linarith+
  have "\<lceil>round64 x\<rceil> = c"
  proof (cases "x = of_int c")
    case True
    have "0 \<le> c" using x0 True by simp
    moreover have "of_int c \<le> (of_int d :: rat)" using True d0 by (simp add: x_def field_simps) 
    then have "c \<le> d" by (simp only: of_int_le_iff)
    ultimately have "\<bar>c\<bar> < 2 ^ 53" using d53 by simp
    then have "round64 (of_int c) = of_int c" by (rule round64_of_int)
    then show ?thesis by (simp add: True)
  next
    case False
    with xc have lt: "x < of_int c" by simp
    have "(of_int d :: rat) < of_int c * 86400000" using lt by (simp add: x_def field_simps)
    then have "(of_int d :: rat) < of_int (c * 86400000)" by simp
    then have "d < c * 86400000" by (simp only: of_int_less_iff)
    then have "d + 1 \<le> c * 86400000" by simp
    then have "(of_int (d + 1) :: rat) \<le> of_int (c * 86400000)" by (simp only: of_int_le_iff)
    then have up: "x + 1 / 86400000 \<le> of_int c" by (simp add: x_def field_simps)
    have "(of_int (c - 1) :: rat) * 86400000 < of_int d" using cx by (simp add: x_def field_simps)
    then have "(of_int ((c - 1) * 86400000) :: rat) < of_int d" by simp
    then have "(c - 1) * 86400000 < d" by (simp only: of_int_less_iff)
    then have "(c - 1) * 86400000 + 1 \<le> d" by simp
    then have "(of_int ((c - 1) * 86400000 + 1) :: rat) \<le> of_int d" by (simp only: of_int_le_iff)
    then have lo: "of_int c - 1 + 1 / 86400000 \<le> x" by (simp add: x_def field_simps)
    have "(of_int d :: rat) < 2 ^ 53" using d53
      by (metis of_int_less_iff of_int_numeral of_int_power)
    then have "x < 2 ^ 53 / 86400000" by (simp add: x_def field_simps)
    then have "x / 2 ^ 53 < (2 ^ 53 / 86400000) / 2 ^ 53" by (simp add: divide_strict_right_mono)
    then have e: "x / 2 ^ 53 < 1 / 86400000" by simp
    have "\<bar>round64 x - x\<bar> \<le> \<bar>x\<bar> / 2 ^ 53" by (rule round64_err)
    then have err: "\<bar>round64 x - x\<bar> < 1 / 86400000" using e x0 by simp
    have "of_int c - 1 < round64 x" using err lo by linarith
    moreover have "round64 x \<le> of_int c" using err up by linarith
    ultimately show ?thesis by (intro ceiling_unique) simp_all
  qed
  then show ?thesis by (simp add: x_def c_def)
qed

lemma age_in_days_exact:
  assumes "\<bar>now - t\<bar> < 2 ^ 53"
  shows "age_in_days now (Some t) = Num (days_between now t)"
proof -
  have "fsub (of_int now) (of_int t) = round64 (of_int (now - t))" by (simp add: fsub_def)
  also have "\<dots> = of_int (now - t)" using assms by (rule round64_of_int)
  finally have "\<bar>fsub (of_int now) (of_int t)\<bar> = of_int \<bar>now - t\<bar>" by simp
  moreover have "\<lceil>round64 (of_int \<bar>now - t\<bar> / 86400000)\<rceil> = \<lceil>of_int \<bar>now - t\<bar> / (86400000::rat)\<rceil>"
    using assms by (intro ceiling_round64_days) simp_all
  ultimately show ?thesis
    by (simp add: age_in_days_def days_between_def fdiv_def Let_def)
qed

lemma days_between_future:
  assumes "now < t"
  shows "0 < days_between now t"
proof -
  have "(0::rat) < of_int \<bar>now - t\<bar> / 86400000" using assms by simp
  then show ?thesis unfolding days_between_def by simp
qed

lemma lookups_never_raise:
  "\<exists>v. getDomainAge parse_date now w = Returned v"
  "\<exists>v. getTLSAge parse_date now e = Returned v"
  "\<exists>v. getWaybackFirstSeen parse_date now r = Returned v"
  by (auto simp: getDomainAge_def getDomainAge_try_def getTLSAge_def getTLSAge_try_def
      getWaybackFirstSeen_def getWaybackFirstSeen_try_def Let_def
      split: whois_outcome.split tls_outcome.split wayback_outcome.split option.split)

lemma lookups_null_on_failure:
  "getDomainAge parse_date now (WhoisRejected err) = Returned Null"
  "first_present result = None \<Longrightarrow> getDomainAge parse_date now (WhoisResolved result) = Returned Null"
  "getTLSAge parse_date now (ConnectThrows err) = Returned Null"
  "getTLSAge parse_date now (SocketError err) = Returned Null"
  "getTLSAge parse_date now SocketTimeout = Returned Null"
  "getTLSAge parse_date now (SecureConnect None) = Returned Null"
  "getTLSAge parse_date now (SecureConnect (Some \<lparr>valid_from = None\<rparr>)) = Returned Null"
  "getWaybackFirstSeen parse_date now (FetchRejected err) = Returned Null"
  "getWaybackFirstSeen parse_date now (JsonRejected err) = Returned Null"
  "getWaybackFirstSeen parse_date now (JsonBody None) = Returned Null"
  "getWaybackFirstSeen parse_date now (JsonBody (Some [])) = Returned Null"
  by (auto simp: getDomainAge_def getDomainAge_try_def getTLSAge_def getTLSAge_try_def
      getWaybackFirstSeen_def getWaybackFirstSeen_try_def Let_def
      first_present_def js_or_def truthy_def split: if_splits option.splits)

lemma getDomainAge_first_present:
  "getDomainAge parse_date now (WhoisResolved result)
     = (case first_present result of
          None \<Rightarrow> Returned Null
        | Some s \<Rightarrow> Returned (age_in_days now (parse_date s)))"
  by (auto simp: getDomainAge_def getDomainAge_try_def Let_def first_present_def js_or_def truthy_def
      split: option.splits)

lemma days_between_samples:
  "days_between eleventh_of_january 1704067200000 = 10"
  "days_between eleventh_of_january 1703203200000 = 20"
  "days_between new_year 1704240000000 = 2"
  "days_between new_year 1703203200000 = 10"
  by (simp_all add: days_between_def eleventh_of_january_def new_year_def)

lemma first_present_samples:
  "first_present two_dates_record = Some ''2024-01-01''"
  "first_present future_record = Some ''2024-01-03''"
  "first_present unparsable_record = Some ''unknown''"
  "first_present \<lparr>creationDate = None, registered = None, created = None\<rparr> = None"
  by (simp_all add: first_present_def truthy_def two_dates_record_def future_record_def
      unparsable_record_def)

lemma sample_parse_date_values:
  "sample_parse_date ''2023-12-22'' = Some 1703203200000"
  "sample_parse_date ''2024-01-01'' = Some 1704067200000"
  "sample_parse_date ''2024-01-03'' = Some 1704240000000"
  "sample_parse_date ''unknown'' = None"
  by (simp_all add: sample_parse_date_def)

lemma sample_ages:
  "age_in_days eleventh_of_january (Some 1704067200000) = Num 10"
  "age_in_days new_year (Some 1704240000000) = Num 2"
  "age_in_days new_year (Some 1703203200000) = Num 10"
proof -
  have "age_in_days eleventh_of_january (Some 1704067200000)
          = Num (days_between eleventh_of_january 1704067200000)"
    by (rule age_in_days_exact) (simp add: eleventh_of_january_def)
  then show "age_in_days eleventh_of_january (Some 1704067200000) = Num 10"
    by (simp add: days_between_samples)
  have "age_in_days new_year (Some 1704240000000) = Num (days_between new_year 1704240000000)"
    by (rule age_in_days_exact) (simp add: new_year_def)
  then show "age_in_days new_year (Some 1704240000000) = Num 2"
    by (simp add: days_between_samples)
  have "age_in_days new_year (Some 1703203200000) = Num (days_between new_year 1703203200000)"
    by (rule age_in_days_exact) (simp add: new_year_def)
  then show "age_in_days new_year (Some 1703203200000) = Num 10"
    by (simp add: days_between_samples)
qed

text \<open>
  Claim C4. No lookup lets an exception reach its caller, and each returns \<open>null\<close>
  when the service fails, the time runs out, the response does not parse or the field is
  missing, as the facts \<open>lookups_never_raise\<close> and \<open>lookups_null_on_failure\<close> say. A
  date that does not parse is not among these: for a record whose creation date is the
  text \<open>unknown\<close> the registration-age lookup returns \<open>NaN\<close>, not \<open>null\<close>.
\<close>

theorem getDomainAge_unparsable_date:
  "getDomainAge sample_parse_date new_year (WhoisResolved unparsable_record) = Returned NaN"
  by (simp add: getDomainAge_first_present first_present_samples sample_parse_date_values
      age_in_days_def)

text \<open>
  Claim C7 as stated takes the earliest of the dates present. For a record with the
  creation date 2024-01-01 and the registration date 2023-12-22, looked up on 2024-01-11,
  the earliest date gives 20 days; the lookup returns 10, the age of the creation date.
\<close>

theorem getDomainAge_not_earliest:
  "getDomainAge sample_parse_date eleventh_of_january (WhoisResolved two_dates_record)
     = Returned (Num 10)
   \<and> lookupDomainAge_spec sample_parse_date eleventh_of_january two_dates_record = Num 20"
proof -
  have "present_dates sample_parse_date two_dates_record = [1704067200000, 1703203200000]"
    by (simp add: present_dates_def two_dates_record_def sample_parse_date_values)
  then have "lookupDomainAge_spec sample_parse_date eleventh_of_january two_dates_record = Num 20"
    by (simp add: lookupDomainAge_spec_def days_between_samples)
  then show ?thesis
    by (simp add: getDomainAge_first_present first_present_samples sample_parse_date_values
        sample_ages)
qed

text \<open>
  Claim C7, amended. The registration-age lookup takes the first of the fields
  \<open>creationDate\<close>, \<open>registered\<close> and \<open>created\<close>, in this order, that is present and
  not empty, and returns the whole number of days between that date and the current time,
  rounded up, when the date parses (and lies within \<open>2 ^ 53\<close> milliseconds of the
  clock, where the floating-point quotient has the exact ceiling); it returns \<open>null\<close>
  when none of the three fields is present.
\<close>

theorem getDomainAge_first_present_date:
  "(first_present result = None
      \<longrightarrow> getDomainAge parse_date now (WhoisResolved result) = Returned Null)
   \<and> (first_present result = Some s \<and> parse_date s = Some t \<and> \<bar>now - t\<bar> < 2 ^ 53
      \<longrightarrow> getDomainAge parse_date now (WhoisResolved result)
            = Returned (Num (days_between now t)))"
  by (simp add: getDomainAge_first_present age_in_days_exact)

text \<open>
  Both cases occur: the record with two dates, and a record with no date at all.
\<close>

theorem getDomainAge_first_present_date_witness:
  "first_present two_dates_record = Some ''2024-01-01''
   \<and> sample_parse_date ''2024-01-01'' = Some 1704067200000
   \<and> \<bar>eleventh_of_january - 1704067200000\<bar> < 2 ^ 53
   \<and> getDomainAge sample_parse_date eleventh_of_january (WhoisResolved two_dates_record)
       = Returned (Num 10)
   \<and> first_present \<lparr>creationDate = None, registered = None, created = None\<rparr> = None
   \<and> getDomainAge sample_parse_date eleventh_of_january
         (WhoisResolved \<lparr>creationDate = None, registered = None, created = None\<rparr>)
       = Returned Null"
  using getDomainAge_first_present_date[of two_dates_record sample_parse_date
      eleventh_of_january "''2024-01-01''" 1704067200000]
    getDomainAge_first_present_date[of "\<lparr>creationDate = None, registered = None, created = None\<rparr>"
      sample_parse_date eleventh_of_january]
  by (simp add: first_present_samples sample_parse_date_values days_between_samples)
    (simp add: eleventh_of_january_def)

text \<open>
  Claim C9 as stated clamps the age to 0 when the date lies in the future of the clock.
  For a creation date two days after the clock the lookup returns 2.
\<close>

theorem future_date_not_clamped:
  "sample_parse_date ''2024-01-03'' = Some 1704240000000
   \<and> new_year < 1704240000000
   \<and> getDomainAge sample_parse_date new_year (WhoisResolved future_record) = Returned (Num 2)"
  by (simp add: getDomainAge_first_present first_present_samples sample_parse_date_values
      sample_ages) (simp add: new_year_def)

lemma age_in_days_future:
  assumes "now < t" and "t - now < 2 ^ 53"
  shows "age_in_days now (Some t) = Num (days_between now t)"
proof -
  have "\<bar>now - t\<bar> < 2 ^ 53" using assms by simp
  then show ?thesis by (rule age_in_days_exact)
qed

lemma getTLSAge_valid_from:
  assumes "valid_from c = Some s" and "s \<noteq> []"
  shows "getTLSAge parse_date now (SecureConnect (Some c))
           = Returned (age_in_days now (parse_date s))"
  using assms by (simp add: getTLSAge_def getTLSAge_try_def truthy_def)

lemma getWaybackFirstSeen_timestamp:
  assumes "1 < length data" and "at_index (data ! 1) 1 = Some ts" and "ts \<noteq> []"
  shows "getWaybackFirstSeen parse_date now (JsonBody (Some data))
           = Returned (age_in_days now (parse_date
               (substring 0 4 ts @ ''-'' @ substring 4 6 ts @ ''-'' @ substring 6 8 ts)))"
  using assms
  by (simp add: getWaybackFirstSeen_def getWaybackFirstSeen_try_def truthy_def Let_def)

text \<open>
  Claim C9, amended. Whenever one of the three lookups returns a number of days, that
  number is an integer that is not negative. A date in the future of the clock is not
  clamped to 0 by any of the three lookups: each returns the distance between the date it
  read and the clock in days, rounded up, which is positive.
\<close>

theorem lookup_ages_nonnegative:
  "(getDomainAge parse_date now w = Returned (Num n) \<longrightarrow> 0 \<le> n)
   \<and> (getTLSAge parse_date now e = Returned (Num n) \<longrightarrow> 0 \<le> n)
   \<and> (getWaybackFirstSeen parse_date now r = Returned (Num n) \<longrightarrow> 0 \<le> n)
   \<and> (now < t \<and> t - now < 2 ^ 53
        \<longrightarrow> age_in_days now (Some t) = Num (days_between now t) \<and> 0 < days_between now t)
   \<and> (first_present result = Some s \<and> parse_date s = Some t \<and> now < t \<and> t - now < 2 ^ 53
        \<longrightarrow> getDomainAge parse_date now (WhoisResolved result)
              = Returned (Num (days_between now t))
            \<and> 0 < days_between now t)
   \<and> (valid_from c = Some s \<and> s \<noteq> [] \<and> parse_date s = Some t \<and> now < t
          \<and> t - now < 2 ^ 53
        \<longrightarrow> getTLSAge parse_date now (SecureConnect (Some c))
              = Returned (Num (days_between now t))
            \<and> 0 < days_between now t)
   \<and> (1 < length data \<and> at_index (data ! 1) 1 = Some ts \<and> ts \<noteq> []
          \<and> parse_date (substring 0 4 ts @ ''-'' @ substring 4 6 ts @ ''-'' @ substring 6 8 ts)
              = Some t
          \<and> now < t \<and> t - now < 2 ^ 53
        \<longrightarrow> getWaybackFirstSeen parse_date now (JsonBody (Some data))
              = Returned (Num (days_between now t))
            \<and> 0 < days_between now t)"
proof -
  have a: "getDomainAge parse_date now w = Returned (Num n) \<longrightarrow> 0 \<le> n"
    by (auto simp: getDomainAge_def getDomainAge_try_def Let_def dest: age_in_days_nonneg
        split: whois_outcome.splits if_splits)
  have b: "getTLSAge parse_date now e = Returned (Num n) \<longrightarrow> 0 \<le> n"
    by (auto simp: getTLSAge_def getTLSAge_try_def dest: age_in_days_nonneg
        split: tls_outcome.splits option.splits if_splits)
  have c: "getWaybackFirstSeen parse_date now r = Returned (Num n) \<longrightarrow> 0 \<le> n"
    by (auto simp: getWaybackFirstSeen_def getWaybackFirstSeen_try_def Let_def
        dest: age_in_days_nonneg split: wayback_outcome.splits option.splits if_splits)
  have d: "now < t \<and> t - now < 2 ^ 53
        \<longrightarrow> age_in_days now (Some t) = Num (days_between now t) \<and> 0 < days_between now t"
    by (simp add: age_in_days_future days_between_future)
  have e: "first_present result = Some s \<and> parse_date s = Some t \<and> now < t
          \<and> t - now < 2 ^ 53
        \<longrightarrow> getDomainAge parse_date now (WhoisResolved result)
              = Returned (Num (days_between now t))
            \<and> 0 < days_between now t"
    by (simp add: getDomainAge_first_present age_in_days_future days_between_future)
  have f: "valid_from c = Some s \<and> s \<noteq> [] \<and> parse_date s = Some t \<and> now < t
          \<and> t - now < 2 ^ 53
        \<longrightarrow> getTLSAge parse_date now (SecureConnect (Some c))
              = Returned (Num (days_between now t))
            \<and> 0 < days_between now t"
    by (simp add: getTLSAge_valid_from age_in_days_future days_between_future)
  have g: "1 < length data \<and> at_index (data ! 1) 1 = Some ts \<and> ts \<noteq> []
          \<and> parse_date (substring 0 4 ts @ ''-'' @ substring 4 6 ts @ ''-'' @ substring 6 8 ts)
              = Some t
          \<and> now < t \<and> t - now < 2 ^ 53
        \<longrightarrow> getWaybackFirstSeen parse_date now (JsonBody (Some data))
              = Returned (Num (days_between now t))
            \<and> 0 < days_between now t"
    by (simp add: getWaybackFirstSeen_timestamp age_in_days_future days_between_future)
  show ?thesis using a b c d e f g by blast
qed

text \<open>
  The three lookups each read the date 2024-01-03 with the clock at 2024-01-01, two days
  before it, and each returns 2.
\<close>

theorem lookup_ages_nonnegative_witness:
  "first_present future_record = Some ''2024-01-03''
   \<and> sample_parse_date ''2024-01-03'' = Some 1704240000000
   \<and> new_year < 1704240000000 \<and> 1704240000000 - new_year < 2 ^ 53
   \<and> getDomainAge sample_parse_date new_year (WhoisResolved future_record) = Returned (Num 2)
   \<and> getTLSAge sample_parse_date new_year
        (SecureConnect (Some \<lparr>valid_from = Some ''2024-01-03''\<rparr>)) = Returned (Num 2)
   \<and> getWaybackFirstSeen sample_parse_date new_year
        (JsonBody (Some [[''urlkey'', ''timestamp''], [''com,example)/'', ''20240103093000'']]))
       = Returned (Num 2)
   \<and> age_in_days new_year (Some 1704240000000) = Num 2
   \<and> (0::int) \<le> 2
   \<and> 0 < days_between new_year 1704240000000"
proof -
  let ?data = "[[''urlkey'', ''timestamp''], [''com,example)/'', ''20240103093000'']]"
  let ?ts = "''20240103093000''"
  let ?c = "\<lparr>valid_from = Some ''2024-01-03''\<rparr>"
  have h1: "first_present future_record = Some ''2024-01-03''"
    by (simp add: first_present_samples)
  have h2: "sample_parse_date ''2024-01-03'' = Some 1704240000000"
    by (simp add: sample_parse_date_values)
  have h3: "new_year < 1704240000000" and h4: "1704240000000 - new_year < 2 ^ 53"
    by (simp_all add: new_year_def)
  have h5: "valid_from ?c = Some ''2024-01-03''" and h6: "''2024-01-03'' \<noteq> []"
    by simp_all
  have h7: "1 < length ?data" and h8: "at_index (?data ! 1) 1 = Some ?ts" and h9: "?ts \<noteq> []"
    by (simp_all add: at_index_def)
  have "substring 0 4 ?ts @ ''-'' @ substring 4 6 ?ts @ ''-'' @ substring 6 8 ?ts
          = ''2024-01-03''"
    by (simp add: substring_def)
  then have h10: "sample_parse_date
        (substring 0 4 ?ts @ ''-'' @ substring 4 6 ?ts @ ''-'' @ substring 6 8 ?ts)
        = Some 1704240000000"
    using h2 by (simp only:)
  note all = lookup_ages_nonnegative[where parse_date = sample_parse_date and now = new_year
      and w = "WhoisResolved future_record" and n = 2
      and e = "SecureConnect (Some ?c)" and r = "JsonBody (Some ?data)"
      and t = 1704240000000 and result = future_record and s = "''2024-01-03''"
      and c = ?c and data = ?data and ts = ?ts]
  have "getDomainAge sample_parse_date new_year (WhoisResolved future_record)
          = Returned (Num (days_between new_year 1704240000000))
        \<and> getTLSAge sample_parse_date new_year (SecureConnect (Some ?c))
          = Returned (Num (days_between new_year 1704240000000))
        \<and> getWaybackFirstSeen sample_parse_date new_year (JsonBody (Some ?data))
          = Returned (Num (days_between new_year 1704240000000))
        \<and> age_in_days new_year (Some 1704240000000)
          = Num (days_between new_year 1704240000000)
        \<and> 0 < days_between new_year 1704240000000"
    using all h1 h2 h3 h4 h5 h6 h7 h8 h9 h10 by blast
  then show ?thesis using h1 h2 h3 h4 by (simp add: days_between_samples)
qed

end
